theory Spec2Isabelle
  imports Complex_Main "HOL-Library.Sublist" "HOL-Library.Log_Nat"
begin

section \<open>Exceptions\<close>

text \<open>The exceptions the modelled code can raise; a function that may raise returns \<open>py_error + 'a\<close>.\<close>

datatype py_error = ValueError | IndexError | OSError

section \<open>Python strings\<close>

text \<open>
  A Python \<open>str\<close> is modelled as a \<open>string\<close>, each \<open>char\<close> standing for one code point
  below 256 (the Latin-1 range, which holds every character of the repository's own
  keyword table and quote pool). The helpers below are the \<open>str\<close> methods the sources call,
  restricted to that range.
\<close>

definition isspace :: "char \<Rightarrow> bool" where
  \<comment> \<open>\<open>str.isspace\<close> on one code point below 256: TAB, LF, VT, FF, CR, FS, GS, RS, US,
      SPACE, NEL and NBSP.\<close>
  "isspace c = (of_char c \<in> {9, 10, 11, 12, 13, 28, 29, 30, 31, 32, 133, 160 :: nat})"

fun split_acc :: "string \<Rightarrow> string \<Rightarrow> string list" where
  "split_acc w [] = (if w = [] then [] else [w])"
| "split_acc w (c # cs) =
     (if isspace c then (if w = [] then split_acc [] cs else w # split_acc [] cs)
      else split_acc (w @ [c]) cs)"

definition py_split :: "string \<Rightarrow> string list" where
  \<comment> \<open>\<open>s.split()\<close>: the maximal runs of non-whitespace characters, in order.\<close>
  "py_split s = split_acc [] s"

fun py_join :: "string \<Rightarrow> string list \<Rightarrow> string" where
  "py_join sep [] = []"
| "py_join sep [x] = x"
| "py_join sep (x # y # ys) = x @ sep @ py_join sep (y # ys)"

definition lower_char :: "char \<Rightarrow> char" where
  \<comment> \<open>\<open>str.lower\<close> on one code point below 256: A-Z and the Latin-1 capitals
      0xC0-0xDE (without the multiplication sign 0xD7) move up by 32.\<close>
  "lower_char c =
     (let n = of_char c :: nat
      in if (65 \<le> n \<and> n \<le> 90) \<or> (192 \<le> n \<and> n \<le> 222 \<and> n \<noteq> 215)
         then char_of (n + 32) else c)"

definition lower :: "string \<Rightarrow> string" where
  "lower s = map lower_char s"

fun py_in :: "string \<Rightarrow> string \<Rightarrow> bool" where
  "py_in sub [] = (sub = [])"
| "py_in sub (c # cs) = (prefix sub (c # cs) \<or> py_in sub cs)"

section \<open>Text layout: \<open>ImageGenerator._wrap_text\<close>\<close>

text \<open>
  A font is what \<open>_wrap_text\<close> uses of it: \<open>font.getbbox(s)\<close>, the bounding box
  \<open>(left, top, right, bottom)\<close> of a rendered string. The rendered width is
  \<open>bbox[2] - bbox[0]\<close>.
\<close>

type_synonym font = "string \<Rightarrow> int \<times> int \<times> int \<times> int"

definition bbox_width :: "font \<Rightarrow> string \<Rightarrow> int" where
  "bbox_width font s = (case font s of (x0, y0, x1, y1) \<Rightarrow> x1 - x0)"

text \<open>The \<open>for word in words\<close> loop, on the loop state \<open>(lines, current_line)\<close>.\<close>

fun wrap_loop ::
  "font \<Rightarrow> int \<Rightarrow> string list \<Rightarrow> string list \<Rightarrow> string list \<Rightarrow> string list \<times> string list"
where
  "wrap_loop font max_width lines current_line [] = (lines, current_line)"
| "wrap_loop font max_width lines current_line (word # words) =
     (let test_line = py_join '' '' (current_line @ [word]);
          width = bbox_width font test_line
      in if width \<le> max_width
         then wrap_loop font max_width lines (current_line @ [word]) words
         else wrap_loop font max_width
                (if current_line \<noteq> [] then lines @ [py_join '' '' current_line] else lines)
                [word] words)"

definition wrap_text :: "string \<Rightarrow> font \<Rightarrow> int \<Rightarrow> string list" where
  "wrap_text text font max_width =
     (case wrap_loop font max_width [] [] (py_split text) of
        (lines, current_line) \<Rightarrow>
          let lines' = (if current_line \<noteq> [] then lines @ [py_join '' '' current_line]
                        else lines)
          in if lines' \<noteq> [] then lines' else [text])"

text \<open>Closing the last line: \<open>if current_line: lines.append(...)\<close>, on the loop state.\<close>

definition close_line :: "string list \<times> string list \<Rightarrow> string list" where
  "close_line st = (case st of (lines, current_line) \<Rightarrow>
     if current_line \<noteq> [] then lines @ [py_join '' '' current_line] else lines)"

section \<open>Quote records and theme matching: \<open>QuoteFetcher._matches_theme\<close>\<close>

text \<open>
  A quote is a Python dict. The keys the sources read and write are fixed, so the dict is
  a record; a key that some quotes lack (\<open>theme\<close> on a fetched quote, \<open>length\<close>, \<open>id\<close>
  and \<open>source\<close> on a fresh pool entry) is an optional field.
\<close>

record quote =
  content :: string
  author :: string
  tags :: "string list"
  theme_key :: "string option"
  length_key :: "int option"
  id_key :: "string option"
  source_key :: "string option"

definition THEME_KEYWORDS :: "(string \<times> string list option) list" where
  "THEME_KEYWORDS =
    [(''motivation'', Some [''motivate'', ''inspire'', ''success'', ''achieve'', ''goal'', ''dream'', ''action'']),
     (''sagesse'', Some [''wisdom'', ''knowledge'', ''learn'', ''understand'', ''philosophy'', ''truth'']),
     (''amour'', Some [''love'', ''heart'', ''compassion'', ''kindness'', ''care'', ''affection'']),
     (''courage'', Some [''courage'', ''brave'', ''fear'', ''strength'', ''perseverance'', ''resilience'']),
     (''succ'' @ [CHR 0xE8] @ ''s'', Some [''success'', ''achievement'', ''win'', ''victory'', ''accomplish'', ''excel'']),
     (''bonheur'', Some [''happiness'', ''joy'', ''smile'', ''grateful'', ''positive'', ''delight'']),
     (''inspiration'', Some [''inspire'', ''creative'', ''imagine'', ''dream'', ''vision'', ''passion'']),
     (''auto'', None)]"

fun keyword_loop :: "string list \<Rightarrow> string \<Rightarrow> bool" where
  "keyword_loop [] content_lower = False"
| "keyword_loop (keyword # keywords) content_lower =
     (if py_in keyword content_lower then True else keyword_loop keywords content_lower)"

definition matches_theme :: "quote \<Rightarrow> string \<Rightarrow> bool" where
  "matches_theme q theme =
     (if theme = ''auto'' then True
      else case (case map_of THEME_KEYWORDS theme of None \<Rightarrow> Some [] | Some v \<Rightarrow> v) of
             None \<Rightarrow> True
           | Some keywords \<Rightarrow>
               if keywords = [] then True
               else keyword_loop keywords (lower (content q)))"

section \<open>Colour science: \<open>ColorPalette.hex_to_rgb\<close>, \<open>rgb_to_hex\<close>, brightness, contrast\<close>


subsection \<open>\<open>int(s, 16)\<close>\<close>

definition int_space :: "char \<Rightarrow> bool" where
  \<comment> \<open>The characters \<open>int()\<close> skips around a literal: TAB, LF, VT, FF, CR, SPACE, NEL, NBSP.\<close>
  "int_space c = (of_char c \<in> {9, 10, 11, 12, 13, 32, 133, 160 :: nat})"

definition hex_digit :: "char \<Rightarrow> nat option" where
  "hex_digit c =
     (let n = of_char c :: nat
      in if 48 \<le> n \<and> n \<le> 57 then Some (n - 48)
         else if 97 \<le> n \<and> n \<le> 102 then Some (n - 87)
         else if 65 \<le> n \<and> n \<le> 70 then Some (n - 55)
         else None)"

text \<open>
  The digits of the literal, most significant first; single underscores may stand between
  digits. \<open>prev\<close> tells whether the character before was an underscore. The result is the
  value and the unread rest, or \<open>None\<close> for a misplaced underscore.
\<close>

fun scan_digits :: "nat \<Rightarrow> bool \<Rightarrow> string \<Rightarrow> (nat \<times> string) option" where
  "scan_digits acc prev [] = (if prev then None else Some (acc, []))"
| "scan_digits acc prev (c # cs) =
     (case hex_digit c of
        Some d \<Rightarrow> scan_digits (16 * acc + d) False cs
      | None \<Rightarrow>
          if c = CHR ''_'' then (if prev then None else scan_digits acc True cs)
          else if prev then None else Some (acc, c # cs))"

definition py_int16 :: "string \<Rightarrow> py_error + int" where
  "py_int16 s =
     (let s1 = dropWhile int_space s;
          neg = (s1 \<noteq> [] \<and> hd s1 = CHR ''-'');
          s2 = (if s1 \<noteq> [] \<and> (hd s1 = CHR ''+'' \<or> hd s1 = CHR ''-'') then tl s1 else s1);
          s3 = (case s2 of
                  z # x # r \<Rightarrow>
                    if z = CHR ''0'' \<and> (x = CHR ''x'' \<or> x = CHR ''X'')
                    then (case r of u # r' \<Rightarrow> if u = CHR ''_'' then r' else r | [] \<Rightarrow> r)
                    else s2
                | _ \<Rightarrow> s2)
      in case s3 of
           [] \<Rightarrow> Inl ValueError
         | c # cs \<Rightarrow>
             if hex_digit c = None then Inl ValueError
             else case scan_digits 0 False s3 of
                    None \<Rightarrow> Inl ValueError
                  | Some (v, rest) \<Rightarrow>
                      if dropWhile int_space rest = [] then Inr (if neg then - int v else int v)
                      else Inl ValueError)"

subsection \<open>\<open>hex_to_rgb\<close> and \<open>rgb_to_hex\<close>\<close>

definition hex_to_rgb :: "string \<Rightarrow> py_error + (int \<times> int \<times> int)" where
  "hex_to_rgb hex_color =
     (let h = dropWhile (\<lambda>c. c = CHR ''#'') hex_color
      in case py_int16 (take 2 h) of Inl e \<Rightarrow> Inl e | Inr r \<Rightarrow>
         case py_int16 (take 2 (drop 2 h)) of Inl e \<Rightarrow> Inl e | Inr g \<Rightarrow>
         case py_int16 (take 2 (drop 4 h)) of Inl e \<Rightarrow> Inl e | Inr b \<Rightarrow>
         Inr (r, g, b))"

definition hex_char :: "nat \<Rightarrow> char" where
  "hex_char d = (if d < 10 then char_of (48 + d) else char_of (87 + d))"

fun hex_nat :: "nat \<Rightarrow> string" where
  "hex_nat n = (if n < 16 then [hex_char n] else hex_nat (n div 16) @ [hex_char (n mod 16)])"

definition format_02x :: "int \<Rightarrow> string" where
  \<comment> \<open>\<open>'{:02x}'.format(n)\<close>: lowercase hex, the sign first, zero-padded to two characters.\<close>
  "format_02x n =
     (let body = (if n < 0 then CHR ''-'' # hex_nat (nat (- n)) else hex_nat (nat n))
      in if length body < 2 then replicate (2 - length body) CHR ''0'' @ body else body)"

definition rgb_to_hex :: "int \<times> int \<times> int \<Rightarrow> string" where
  "rgb_to_hex rgb = (case rgb of (r, g, b) \<Rightarrow>
     CHR ''#'' # format_02x r @ format_02x g @ format_02x b)"


subsection \<open>Floating point\<close>

text \<open>
  A Python \<open>float\<close> is an IEEE 754 double. A finite double is a rational number, and each
  arithmetic operation returns the exact result rounded to the nearest double, ties to the
  even significand. \<open>fl\<close> is that rounding (53-bit significand, the subnormal spacing
  below \<open>2^-1022\<close>); the values of this program stay far inside the finite range.
\<close>

definition pow2 :: "int \<Rightarrow> rat" where
  "pow2 e = (if 0 \<le> e then 2 ^ nat e else 1 / 2 ^ nat (- e))"

definition round_half_even :: "rat \<Rightarrow> int" where
  "round_half_even x =
     (let f = \<lfloor>x\<rfloor>; d = x - of_int f
      in if d < 1 / 2 then f else if 1 / 2 < d then f + 1 else if even f then f else f + 1)"

definition ilog2 :: "rat \<Rightarrow> int" where
  \<comment> \<open>\<open>\<lfloor>log\<^sub>2 x\<rfloor>\<close> for \<open>x > 0\<close>.\<close>
  "ilog2 x = (case quotient_of x of (p, q) \<Rightarrow>
     let e = bitlen p - bitlen q in if pow2 e \<le> x then e else e - 1)"

definition fl :: "rat \<Rightarrow> rat" where
  "fl x =
     (if x = 0 then 0
      else let e = max (ilog2 \<bar>x\<bar>) (- 1022); u = pow2 (e - 52)
           in of_int (round_half_even (x / u)) * u)"

definition fmul :: "rat \<Rightarrow> rat \<Rightarrow> rat" where
  "fmul a b = fl (a * b)"

definition fadd :: "rat \<Rightarrow> rat \<Rightarrow> rat" where
  "fadd a b = fl (a + b)"

definition calculate_brightness :: "string \<Rightarrow> py_error + rat" where
  "calculate_brightness hex_color =
     (case hex_to_rgb hex_color of
        Inl e \<Rightarrow> Inl e
      | Inr (r, g, b) \<Rightarrow>
          Inr (fadd (fadd (fmul (of_int r) (fl (299 / 1000))) (fmul (of_int g) (fl (587 / 1000))))
                    (fmul (of_int b) (fl (114 / 1000)))))"

definition ensure_contrast :: "string \<Rightarrow> string \<Rightarrow> rat \<Rightarrow> py_error + string" where
  "ensure_contrast bg_color text_color min_brightness_diff =
     (case calculate_brightness bg_color of
        Inl e \<Rightarrow> Inl e
      | Inr bg_brightness \<Rightarrow>
          if bg_brightness > 128 then Inr ''#1A1A1A'' else Inr ''#FAFAFA'')"

section \<open>The local pool: \<open>data/local_quotes.py\<close>\<close>

text \<open>
  A pool entry as the module writes it: the keys \<open>content\<close>, \<open>author\<close>, \<open>tags\<close> and \<open>theme\<close>.
\<close>

definition pool_entry :: "string \<Rightarrow> string \<Rightarrow> string list \<Rightarrow> string \<Rightarrow> quote" where
  "pool_entry c a ts th =
     \<lparr>content = c, author = a, tags = ts, theme_key = Some th, length_key = None,
      id_key = None, source_key = None\<rparr>"

definition FRENCH_QUOTES :: "quote list" where
  "FRENCH_QUOTES =
    [pool_entry
       (''Le succ'' @ [CHR 0xE8] @ ''s n'est pas final, l'' @ [CHR 0x27] @ [CHR 0xE9]
        @ ''chec n'est pas fatal : c'est le courage de continuer qui compte.'')
       (''Winston Churchill'') [''motivation''] (''motivation''),
     pool_entry
       (''La seule fa'' @ [CHR 0xE7]
        @ ''on de faire du bon travail est d'aimer ce que vous faites.'')
       (''Steve Jobs'') [''succ'' @ [CHR 0xE8] @ ''s'', ''passion''] (''succ'' @ [CHR 0xE8] @ ''s''),
     pool_entry
       (''Croyez que vous pouvez le faire et vous '' @ [CHR 0xEA] @ ''tes ''
        @ [CHR 0xE0] @ '' mi-chemin.'')
       (''Theodore Roosevelt'') [''motivation''] (''motivation''),
     pool_entry
       (''Le bonheur n'est pas quelque chose de pr'' @ [CHR 0xEA] @ ''t ''
        @ [CHR 0xE0] @ '' l'emploi. Il vient de vos propres actions.'')
       (''Dala'' @ [CHR 0xEF] @ '' Lama'') [''bonheur''] (''bonheur''),
     pool_entry
       (''Dans un an, vous regretterez de ne pas avoir commenc'' @ [CHR 0xE9]
        @ '' aujourd'hui.'')
       (''Karen Lamb'') [''motivation''] (''motivation''),
     pool_entry
       (''La meilleure fa'' @ [CHR 0xE7] @ ''on de pr'' @ [CHR 0xE9]
        @ ''dire l'avenir est de le cr'' @ [CHR 0xE9] @ ''er.'')
       (''Peter Drucker'') [''succ'' @ [CHR 0xE8] @ ''s''] (''succ'' @ [CHR 0xE8] @ ''s''),
     pool_entry
       (''Soyez vous-m'' @ [CHR 0xEA] @ ''me; tous les autres sont d'' @ [CHR 0xE9]
        @ ''j'' @ [CHR 0xE0] @ '' pris.'')
       (''Oscar Wilde'') [''sagesse''] (''sagesse''),
     pool_entry
       (''L'imagination est plus importante que le savoir.'')
       (''Albert Einstein'') [''sagesse''] (''sagesse''),
     pool_entry
       (''Le courage n'est pas l'absence de peur, mais la capacit'' @ [CHR 0xE9]
        @ '' de la vaincre.'')
       (''Nelson Mandela'') [''courage''] (''courage''),
     pool_entry
       (''La vie est ce qui arrive quand vous '' @ [CHR 0xEA] @ ''tes occup''
        @ [CHR 0xE9] @ '' '' @ [CHR 0xE0] @ '' faire d'autres plans.'')
       (''John Lennon'') [''sagesse''] (''sagesse''),
     pool_entry
       (''Vous manquez 100% des coups que vous ne tentez pas.'')
       (''Wayne Gretzky'') [''motivation''] (''motivation''),
     pool_entry
       (''Ce qui ne nous tue pas nous rend plus fort.'')
       (''Friedrich Nietzsche'') [''courage''] (''courage''),
     pool_entry
       (''Soyez le changement que vous voulez voir dans le monde.'')
       (''Mahatma Gandhi'') [''inspiration''] (''inspiration''),
     pool_entry
       (''La plus grande gloire n'est pas de ne jamais tomber, mais de se relever ''
        @ [CHR 0xE0] @ '' chaque chute.'')
       (''Confucius'') [''courage''] (''courage''),
     pool_entry
       (''Il n'y a qu'une fa'' @ [CHR 0xE7] @ ''on d'' @ [CHR 0x27] @ [CHR 0xE9]
        @ ''chouer, c'est d'abandonner avant d'avoir r'' @ [CHR 0xE9] @ ''ussi.'')
       (''Olivier Lockert'') [''motivation''] (''motivation''),
     pool_entry
       (''L'avenir appartient '' @ [CHR 0xE0] @ '' ceux qui croient en la beaut''
        @ [CHR 0xE9] @ '' de leurs r'' @ [CHR 0xEA] @ ''ves.'')
       (''Eleanor Roosevelt'') [''inspiration''] (''inspiration''),
     pool_entry
       (''Le meilleur moment pour planter un arbre '' @ [CHR 0xE9]
        @ ''tait il y a 20 ans. Le deuxi'' @ [CHR 0xE8]
        @ ''me meilleur moment est maintenant.'')
       (''Proverbe chinois'') [''motivation''] (''motivation''),
     pool_entry
       (''Ne comptez pas les jours, faites que les jours comptent.'')
       (''Muhammad Ali'') [''motivation''] (''motivation''),
     pool_entry
       (''La seule limite '' @ [CHR 0xE0] @ '' notre r'' @ [CHR 0xE9]
        @ ''alisation de demain sera nos doutes d'aujourd'hui.'')
       (''Franklin D. Roosevelt'') [''motivation''] (''motivation''),
     pool_entry
       (''Agissez comme s'il '' @ [CHR 0xE9] @ ''tait impossible d'' @ [CHR 0x27]
        @ [CHR 0xE9] @ ''chouer.'')
       (''Winston Churchill'') [''motivation''] (''motivation'')]"

text \<open>\<open>str(n)\<close> for an integer, as the f-string of the \<open>id\<close> needs it.\<close>

fun dec_nat :: "nat \<Rightarrow> string" where
  "dec_nat n = (if n < 10 then [char_of (48 + n)] else dec_nat (n div 10) @ [char_of (48 + n mod 10)])"

definition str_int :: "int \<Rightarrow> string" where
  "str_int i = (if i < 0 then CHR ''-'' # dec_nat (nat (- i)) else dec_nat (nat i))"

text \<open>
  \<open>random.choice(seq)\<close>: the element at a position the generator picks; \<open>r\<close> is the
  generator's draw. An empty sequence raises \<open>IndexError\<close>.
\<close>

definition choice :: "nat \<Rightarrow> 'a list \<Rightarrow> py_error + 'a" where
  "choice r seq = (if seq = [] then Inl IndexError else Inr (seq ! (r mod length seq)))"

text \<open>
  \<open>get_random_quote\<close>. The module-level list holds dict objects, and \<open>random.choice\<close>
  returns one of these objects, not a copy: the three assignments that follow write into
  the pool's own entry. The model therefore passes the pool in and out, names the
  returned object by its position in the pool, and keeps \<open>filtered\<close> as the positions of
  the entries it holds. \<open>py_hash\<close> is the interpreter's \<open>hash\<close> on strings (salted per
  process, fixed within one), \<open>r\<close> the draw of \<open>random.choice\<close>.
\<close>

definition theme_filter :: "string \<Rightarrow> quote \<Rightarrow> bool" where
  "theme_filter theme q =
     (lower theme \<in> set (map lower (tags q))
      \<or> lower (case theme_key q of None \<Rightarrow> [] | Some t \<Rightarrow> t) = lower theme)"

definition get_random_quote ::
  "(string \<Rightarrow> int) \<Rightarrow> nat \<Rightarrow> string option \<Rightarrow> quote list \<Rightarrow> py_error + (nat \<times> quote list)"
where
  "get_random_quote py_hash r theme pool =
     (let everything = [0 ..< length pool];
          picked =
            (case theme of
               None \<Rightarrow> choice r everything
             | Some th \<Rightarrow>
                 if th \<noteq> [] \<and> th \<noteq> ''auto''
                 then (let filtered = filter (\<lambda>i. theme_filter th (pool ! i)) everything
                       in if filtered \<noteq> [] then choice r filtered else choice r everything)
                 else choice r everything)
      in case picked of
           Inl e \<Rightarrow> Inl e
         | Inr i \<Rightarrow>
             let q = pool ! i;
                 q1 = q\<lparr>length_key := Some (int (length (content q)))\<rparr>;
                 q2 = q1\<lparr>id_key := Some (''local_'' @ str_int (py_hash (content q1)))\<rparr>;
                 q3 = q2\<lparr>source_key := Some ''local''\<rparr>
             in Inr (i, pool[i := q3]))"

section \<open>The fetcher: \<open>core/quote_fetcher.py\<close>\<close>

text \<open>
  What the fetcher does to the outside, and what the outside answers, is a \<open>world\<close> that
  every function takes and returns:
  \<^item> \<open>clock\<close> is what \<open>time.time()\<close> returns now; times are exact rationals;
  \<^item> \<open>replies\<close> are the outcomes of the coming remote requests, each with the time the
    request takes; \<open>Failure\<close> is every outcome for which \<open>_fetch_single_quote\<close> returns \<open>None\<close>
    (a network error, an HTTP error such as 429, a body that is not a non-empty list),
    \<open>Body q a h\<close> a reply whose first element holds the text fields \<open>q\<close>, \<open>a\<close>, \<open>h\<close> that are
    present;
  \<^item> \<open>oversleep\<close> is how much longer than asked each coming \<open>time.sleep\<close> takes;
  \<^item> \<open>draws\<close> are the coming picks of \<open>random.choice\<close>;
  \<^item> \<open>saves\<close> are the outcomes of the coming \<open>_save_cache\<close> calls on the disk;
  \<^item> \<open>local_pool\<close> is the module-level \<open>FRENCH_QUOTES\<close>, \<open>LOCAL_OK\<close> the import flag, \<open>hash_fn\<close>
    the interpreter's string hash;
  \<^item> \<open>sent_at\<close> logs the clock at every remote request sent.
  A list that runs out answers with the plain case (a failed request, an exact sleep,
  draw 0, a save that works).
\<close>

datatype remote_reply = Failure | Body "string option" "string option" "string option"

datatype disk_reply = Saved | MkdirFails | WriteFails

record world =
  clock :: rat
  replies :: "(rat \<times> remote_reply) list"
  oversleep :: "rat list"
  draws :: "nat list"
  saves :: "disk_reply list"
  local_pool :: "quote list"
  LOCAL_OK :: bool
  hash_fn :: "string \<Rightarrow> int"
  sent_at :: "rat list"

text \<open>
  The instance: \<open>self.cache\<close> (a dict with the keys \<open>quotes\<close> and \<open>timestamp\<close>, either of
  which a loaded file may lack) and \<open>self.last_request_time\<close>.
\<close>

record fetcher =
  cache_quotes :: "quote list option"
  cache_timestamp :: "rat option"
  last_request_time :: rat

definition MIN_REQUEST_DELAY :: rat where
  "MIN_REQUEST_DELAY = 2"

text \<open>\<open>__init__\<close> when no cache file can be read: \<open>_load_cache\<close> returns the empty cache.\<close>

definition new_fetcher :: fetcher where
  "new_fetcher = \<lparr>cache_quotes = Some [], cache_timestamp = Some 0, last_request_time = 0\<rparr>"

definition time_sleep :: "rat \<Rightarrow> world \<Rightarrow> world" where
  "time_sleep secs w =
     (case oversleep w of
        [] \<Rightarrow> w\<lparr>clock := clock w + secs\<rparr>
      | x # xs \<Rightarrow> w\<lparr>clock := clock w + secs + x, oversleep := xs\<rparr>)"

definition random_choice :: "'a list \<Rightarrow> world \<Rightarrow> 'a \<times> world" where
  \<comment> \<open>\<open>random.choice\<close> on a list the caller has found non-empty.\<close>
  "random_choice seq w =
     (case draws w of
        [] \<Rightarrow> (seq ! 0, w)
      | r # rs \<Rightarrow> (seq ! (r mod length seq), w\<lparr>draws := rs\<rparr>))"

definition save_cache :: "world \<Rightarrow> py_error option \<times> world" where
  \<comment> \<open>\<open>mkdir\<close> stands before the \<open>try\<close>: its error leaves the method. An error of \<open>open\<close> or
      \<open>json.dump\<close> is caught and printed.\<close>
  "save_cache w =
     (case saves w of
        [] \<Rightarrow> (None, w)
      | MkdirFails # rest \<Rightarrow> (Some OSError, w\<lparr>saves := rest\<rparr>)
      | WriteFails # rest \<Rightarrow> (None, w\<lparr>saves := rest\<rparr>)
      | Saved # rest \<Rightarrow> (None, w\<lparr>saves := rest\<rparr>))"

definition wait_for_rate_limit :: "fetcher \<Rightarrow> world \<Rightarrow> fetcher \<times> world" where
  "wait_for_rate_limit f w =
     (let elapsed = clock w - last_request_time f;
          w1 = (if elapsed < MIN_REQUEST_DELAY
                then time_sleep (MIN_REQUEST_DELAY - elapsed) w else w)
      in (f\<lparr>last_request_time := clock w1\<rparr>, w1))"

definition get_from_cache :: "string \<Rightarrow> fetcher \<Rightarrow> world \<Rightarrow> quote option \<times> world" where
  "get_from_cache theme f w =
     (case cache_quotes f of
        None \<Rightarrow> (None, w)
      | Some qs \<Rightarrow>
          if qs = [] then (None, w)
          else
            let matching =
                  (if theme \<noteq> ''auto'' \<and> theme \<in> fst ` set THEME_KEYWORDS
                   then filter (\<lambda>q. matches_theme q theme) qs else [])
            in if matching \<noteq> [] then (case random_choice matching w of (q, w1) \<Rightarrow> (Some q, w1))
               else if qs \<noteq> [] then (case random_choice qs w of (q, w1) \<Rightarrow> (Some q, w1))
               else (None, w))"

definition zen_quote :: "(string \<Rightarrow> int) \<Rightarrow> string option \<Rightarrow> string option \<Rightarrow> string option \<Rightarrow> quote" where
  \<comment> \<open>The dict \<open>_fetch_single_quote\<close> builds from \<open>data[0]\<close>.\<close>
  "zen_quote hash q a h =
     (let qq = (case q of None \<Rightarrow> [] | Some s \<Rightarrow> s)
      in \<lparr>content = qq,
          author = (case a of None \<Rightarrow> ''Unknown'' | Some s \<Rightarrow> s),
          tags = [],
          theme_key = None,
          length_key = Some (int (length qq)),
          id_key = Some (case h of None \<Rightarrow> ''zen_'' @ str_int (hash qq) | Some s \<Rightarrow> s),
          source_key = Some ''zenquotes''\<rparr>)"

definition fetch_single_quote :: "world \<Rightarrow> quote option \<times> world" where
  "fetch_single_quote w =
     (let w0 = w\<lparr>sent_at := sent_at w @ [clock w]\<rparr>
      in case replies w0 of
           [] \<Rightarrow> (None, w0)
         | (d, r) # rest \<Rightarrow>
             let w1 = w0\<lparr>clock := clock w0 + d, replies := rest\<rparr>
             in (case r of
                   Failure \<Rightarrow> (None, w1)
                 | Body q a h \<Rightarrow> (Some (zen_quote (hash_fn w1) q a h), w1)))"

definition get_fallback_quote :: quote where
  "get_fallback_quote =
     \<lparr>content = ''Le succ'' @ [CHR 0xE8] @ ''s est la somme de petits efforts r'' @ [CHR 0xE9] @ ''p'' @ [CHR 0xE9] @ ''t'' @ [CHR 0xE9] @ ''s jour apr'' @ [CHR 0xE8] @ ''s jour.'',
      author = ''Robert Collier'', tags = [''motivation''], theme_key = None,
      length_key = Some 68, id_key = Some ''fallback'', source_key = Some ''fallback''\<rparr>"

text \<open>
  The block \<open># Ajouter au cache\<close>: create the list if the key is missing, drop the first
  entry when the list holds 50 or more, append, stamp.
\<close>

definition cache_insert :: "quote \<Rightarrow> rat \<Rightarrow> fetcher \<Rightarrow> fetcher" where
  "cache_insert q now f =
     (let qs0 = (case cache_quotes f of None \<Rightarrow> [] | Some qs \<Rightarrow> qs);
          qs1 = (if length qs0 \<ge> 50 then tl qs0 else qs0)
      in f\<lparr>cache_quotes := Some (qs1 @ [q]), cache_timestamp := Some now\<rparr>)"

definition between_attempts :: "nat \<Rightarrow> world \<Rightarrow> world" where
  "between_attempts attempt w = (if attempt < 2 then time_sleep 1 w else w)"

text \<open>
  The loop \<open>for attempt in range(3)\<close>. Its result is \<open>Inl e\<close> when \<open>e\<close> was raised,
  \<open>Inr (Some q)\<close> when the loop returned \<open>q\<close>, and \<open>Inr None\<close> when it ran to its end.
\<close>

fun attempt_loop ::
  "nat list \<Rightarrow> string \<Rightarrow> fetcher \<Rightarrow> world \<Rightarrow> (py_error + quote option) \<times> fetcher \<times> world"
where
  "attempt_loop [] theme f w = (Inr None, f, w)"
| "attempt_loop (attempt # rest) theme f w =
     (case fetch_single_quote w of
        (None, w1) \<Rightarrow> attempt_loop rest theme f (between_attempts attempt w1)
      | (Some q, w1) \<Rightarrow>
          let f1 = cache_insert q (clock w1) f
          in (case save_cache w1 of
                (Some e, w2) \<Rightarrow> (Inl e, f1, w2)
              | (None, w2) \<Rightarrow>
                  if theme \<noteq> ''auto'' \<and> matches_theme q theme then (Inr (Some q), f1, w2)
                  else if theme = ''auto'' then (Inr (Some q), f1, w2)
                  else attempt_loop rest theme f1 (between_attempts attempt w2)))"

definition local_quote :: "string \<Rightarrow> world \<Rightarrow> (py_error + quote) \<times> world" where
  \<comment> \<open>\<open>get_local_quote(theme)\<close>: the call into \<open>local_quotes.get_random_quote\<close>, which writes
      into the pool.\<close>
  "local_quote theme w =
     (let r = (case draws w of [] \<Rightarrow> 0 | r # rs \<Rightarrow> r);
          w1 = w\<lparr>draws := tl (draws w)\<rparr>
      in case get_random_quote (hash_fn w1) r (Some theme) (local_pool w1) of
           Inl e \<Rightarrow> (Inl e, w1)
         | Inr (i, pool') \<Rightarrow> (Inr (pool' ! i), w1\<lparr>local_pool := pool'\<rparr>))"

text \<open>
  \<open>fetch_random_quote\<close>, in the source's own steps: the fresh cache first (step 1); else
  the rate limit and the three remote attempts (step 2); and when no attempt returned, the
  cache whatever its age (step 3), then the local pool or the hard-coded quote (step 4).
  The result is \<open>Inl e\<close> when \<open>e\<close> leaves the method, else \<open>Inr\<close> the quote returned, with
  the instance and the world as the call leaves them.
\<close>

definition cache_first :: "string \<Rightarrow> fetcher \<Rightarrow> world \<Rightarrow> quote option \<times> world" where
  "cache_first theme f w =
     (let cache_age = clock w - (case cache_timestamp f of None \<Rightarrow> 0 | Some t \<Rightarrow> t)
      in if cache_age < 300 then get_from_cache theme f w else (None, w))"

definition fallback_chain ::
  "string \<Rightarrow> fetcher \<Rightarrow> world \<Rightarrow> (py_error + quote) \<times> fetcher \<times> world"
where
  "fallback_chain theme f w =
     (case get_from_cache theme f w of
        (Some cached, w3) \<Rightarrow> (Inr cached, f, w3)
      | (None, w3) \<Rightarrow>
          if LOCAL_OK w3
          then (case local_quote theme w3 of (res, w4) \<Rightarrow> (res, f, w4))
          else (Inr get_fallback_quote, f, w3))"

definition remote_phase ::
  "string \<Rightarrow> fetcher \<Rightarrow> world \<Rightarrow> (py_error + quote) \<times> fetcher \<times> world"
where
  "remote_phase theme f w =
     (case wait_for_rate_limit f w of
        (f1, w1) \<Rightarrow>
          (case attempt_loop [0 ..< 3] theme f1 w1 of
             (Inl e, f2, w2) \<Rightarrow> (Inl e, f2, w2)
           | (Inr (Some q), f2, w2) \<Rightarrow> (Inr q, f2, w2)
           | (Inr None, f2, w2) \<Rightarrow> fallback_chain theme f2 w2))"

definition fetch_random_quote ::
  "string \<Rightarrow> fetcher \<Rightarrow> world \<Rightarrow> (py_error + quote) \<times> fetcher \<times> world"
where
  "fetch_random_quote theme f w =
     (case cache_first theme f w of
        (Some cached, w0) \<Rightarrow> (Inr cached, f, w0)
      | (None, w0) \<Rightarrow> remote_phase theme f w0)"

section \<open>The caller's retry loop: \<open>utils/cache_utils.py\<close>\<close>

text \<open>
  \<open>st.session_state.quote_cache\<close> is a Python \<open>set\<close> of digests. A set keeps no insertion
  order: \<open>list(s)\<close> enumerates it in the order of its hash table. The model keeps the
  elements as a list in insertion order, so that "the oldest" can be spoken of, and takes
  the enumeration as a parameter \<open>set_order\<close>: \<open>set_order xs\<close> is what \<open>list(s)\<close> returns for
  the set whose elements were inserted in the order \<open>xs\<close>. \<open>set(cache_list)\<close> builds the new
  set by inserting the elements of \<open>cache_list\<close> in list order. \<open>md5_hex\<close> stands for
  \<open>hashlib.md5(s.encode()).hexdigest()\<close>.
\<close>

definition get_quote_hash :: "(string \<Rightarrow> string) \<Rightarrow> string \<Rightarrow> string" where
  "get_quote_hash md5_hex quote_content = md5_hex quote_content"

text \<open>
  The block under \<open>if quote_hash not in st.session_state.quote_cache\<close>: add, and beyond 30
  elements turn the set into a list, pop its first element, turn it back into a set.
\<close>

definition remember :: "(string list \<Rightarrow> string list) \<Rightarrow> string \<Rightarrow> string list \<Rightarrow> string list" where
  "remember set_order quote_hash quote_cache =
     (let added = quote_cache @ [quote_hash]
      in if length added > 30
         then (let cache_list = set_order added in tl cache_list)
         else added)"

text \<open>
  The loop \<open>for attempt in range(max_attempts)\<close>. An exception of the fetch is caught and
  the loop continues. The result is the quote returned from inside the loop, if any, with
  the recent-set, the fetcher and the world as they are then.
\<close>

fun unique_loop ::
  "(string \<Rightarrow> string) \<Rightarrow> (string list \<Rightarrow> string list) \<Rightarrow> nat list \<Rightarrow> string \<Rightarrow> string list
     \<Rightarrow> fetcher \<Rightarrow> world \<Rightarrow> quote option \<times> string list \<times> fetcher \<times> world"
where
  "unique_loop md5_hex set_order [] theme quote_cache f w = (None, quote_cache, f, w)"
| "unique_loop md5_hex set_order (attempt # rest) theme quote_cache f w =
     (case fetch_random_quote theme f w of
        (Inl e, f1, w1) \<Rightarrow> unique_loop md5_hex set_order rest theme quote_cache f1 w1
      | (Inr quote_data, f1, w1) \<Rightarrow>
          let quote_hash = get_quote_hash md5_hex (content quote_data)
          in if quote_hash \<notin> set quote_cache
             then (Some quote_data, remember set_order quote_hash quote_cache, f1, w1)
             else unique_loop md5_hex set_order rest theme quote_cache f1 w1)"

definition fetch_unique_quote ::
  "(string \<Rightarrow> string) \<Rightarrow> (string list \<Rightarrow> string list) \<Rightarrow> string \<Rightarrow> int \<Rightarrow> string list
     \<Rightarrow> fetcher \<Rightarrow> world \<Rightarrow> quote option \<times> string list \<times> fetcher \<times> world"
where
  "fetch_unique_quote md5_hex set_order theme max_attempts quote_cache f w =
     (case unique_loop md5_hex set_order [0 ..< nat max_attempts] theme quote_cache f w of
        (Some quote_data, cache1, f1, w1) \<Rightarrow> (Some quote_data, cache1, f1, w1)
      | (None, cache1, f1, w1) \<Rightarrow>
          (case fetch_random_quote theme f1 w1 of
             (Inl e, f2, w2) \<Rightarrow> (None, [], f2, w2)
           | (Inr quote_data, f2, w2) \<Rightarrow> (Some quote_data, [], f2, w2)))"

section \<open>The renderer: \<open>design/image_generator.py\<close>\<close>

text \<open>
  An image is what was asked of Pillow: the size and fill colour given to \<open>Image.new\<close>, and
  the drawing calls made on it since, in order. A font object offers \<open>getbbox\<close> and, unless
  it is the built-in default font, \<open>getname\<close>. \<open>_get_font\<close> looks fonts up on the file system
  and never raises; it is a parameter \<open>get_font size weight family\<close> of the model.
\<close>

type_synonym rgb = "int \<times> int \<times> int"

record font_obj =
  getbbox :: font
  getname :: "(string \<times> string) option"

datatype draw_op =
    DrawText "int \<times> int" string font_obj rgb
  | DrawLine "int \<times> int" "int \<times> int" rgb
  | DrawRectangle "int \<times> int" "int \<times> int" "rgb option" "rgb option" int
  | DrawPolygon "(int \<times> int) list" rgb

record image =
  img_size :: "int \<times> int"
  img_fill :: rgb
  img_ops :: "draw_op list"

definition image_new :: "int \<times> int \<Rightarrow> rgb \<Rightarrow> py_error + image" where
  \<comment> \<open>\<open>Image.new('RGB', size, color)\<close>; a negative width or height is a \<open>ValueError\<close>.\<close>
  "image_new self_size color =
     (if fst self_size < 0 \<or> snd self_size < 0 then Inl ValueError
      else Inr \<lparr>img_size = self_size, img_fill = color, img_ops = []\<rparr>)"

definition draw :: "draw_op list \<Rightarrow> image \<Rightarrow> image" where
  "draw new img = img\<lparr>img_ops := img_ops img @ new\<rparr>"

definition FONT_SIZE_small :: int where "FONT_SIZE_small = 48"
definition FONT_SIZE_medium :: int where "FONT_SIZE_medium = 42"
definition FONT_SIZE_large :: int where "FONT_SIZE_large = 36"
definition FONT_SIZE_xlarge :: int where "FONT_SIZE_xlarge = 32"
definition FONT_SIZE_author :: int where "FONT_SIZE_author = 32"
definition FONT_SIZE_decorative :: int where "FONT_SIZE_decorative = 72"

definition PADDING_BY_STYLE :: "(string \<times> int) list" where
  "PADDING_BY_STYLE = [(''minimal'', 80), (''moderne'', 100), (''elegant'', 120)]"

definition elegant_accented :: string where
  \<comment> \<open>The style name \<open>elegant\<close> written with its two acute accents.\<close>
  "elegant_accented = [CHR 0xE9] @ ''l'' @ [CHR 0xE9] @ ''gant''"

definition em_dash :: string where
  \<comment> \<open>U+2014, which lies outside the range of \<open>char\<close>: written as its UTF-8 bytes.\<close>
  "em_dash = [CHR 0xE2, CHR 0x80, CHR 0x94]"

definition py_trunc :: "rat \<Rightarrow> int" where
  \<comment> \<open>\<open>int(x)\<close> of a float: towards zero.\<close>
  "py_trunc x = (if 0 \<le> x then \<lfloor>x\<rfloor> else \<lceil>x\<rceil>)"

definition gradient_channel :: "int \<Rightarrow> int \<Rightarrow> rat \<Rightarrow> int" where
  "gradient_channel c1 c2 ratio =
     py_trunc (fadd (fmul (of_int c1) (fl (1 - ratio))) (fmul (of_int c2) ratio))"

definition create_gradient_background :: "int \<times> int \<Rightarrow> string \<Rightarrow> string \<Rightarrow> py_error + image" where
  "create_gradient_background self_size color1 color2 =
     (case image_new self_size (0, 0, 0) of
        Inl e \<Rightarrow> Inl e
      | Inr img \<Rightarrow>
          (case hex_to_rgb color1 of
             Inl e \<Rightarrow> Inl e
           | Inr (r1, g1, b1) \<Rightarrow>
               (case hex_to_rgb color2 of
                  Inl e \<Rightarrow> Inl e
                | Inr (r2, g2, b2) \<Rightarrow>
                    Inr (draw
                      (map (\<lambda>y. let ratio = fl (of_int y / of_int (snd self_size))
                                 in DrawLine (0, y) (fst self_size, y)
                                      (gradient_channel r1 r2 ratio,
                                       gradient_channel g1 g2 ratio,
                                       gradient_channel b1 b2 ratio))
                         (map int [0 ..< nat (snd self_size)]))
                      img))))"

definition calculate_font_size :: "int \<Rightarrow> int" where
  "calculate_font_size text_length =
     (if text_length < 60 then FONT_SIZE_small
      else if text_length < 120 then FONT_SIZE_medium
      else if text_length < 180 then FONT_SIZE_large
      else FONT_SIZE_xlarge)"

text \<open>
  The loop that draws the quote lines, shared word for word by the three styles: each line
  centred, \<open>y_pos\<close> moving down by \<open>line_spacing\<close>. It returns the calls and the final \<open>y_pos\<close>.
\<close>

fun draw_lines ::
  "int \<times> int \<Rightarrow> font_obj \<Rightarrow> rgb \<Rightarrow> int \<Rightarrow> int \<Rightarrow> string list \<Rightarrow> draw_op list \<times> int"
where
  "draw_lines self_size quote_font text_color line_spacing y_pos [] = ([], y_pos)"
| "draw_lines self_size quote_font text_color line_spacing y_pos (line # rest) =
     (let line_width = bbox_width (getbbox quote_font) line;
          x_pos = (fst self_size - line_width) div 2
      in case draw_lines self_size quote_font text_color line_spacing (y_pos + line_spacing) rest of
           (later, y_end) \<Rightarrow> (DrawText (x_pos, y_pos) line quote_font text_color # later, y_end))"

definition centred_x :: "int \<times> int \<Rightarrow> font_obj \<Rightarrow> string \<Rightarrow> int" where
  "centred_x self_size f s = (fst self_size - bbox_width (getbbox f) s) div 2"

definition render_minimal_style ::
  "int \<times> int \<Rightarrow> image \<Rightarrow> string list \<Rightarrow> string \<Rightarrow> font_obj \<Rightarrow> font_obj \<Rightarrow> rgb \<Rightarrow> int \<Rightarrow> image"
where
  "render_minimal_style self_size img quote_lines author_name quote_font author_font text_color line_spacing =
     (let total_height = int (length quote_lines) * line_spacing + 80;
          start_y = (snd self_size - total_height) div 2
      in case draw_lines self_size quote_font text_color line_spacing start_y quote_lines of
           (line_ops, y_pos) \<Rightarrow>
             let author_text = em_dash @ '' '' @ author_name;
                 author_x = centred_x self_size author_font author_text
             in draw (line_ops
                      @ [DrawText (author_x, y_pos + 40) author_text author_font text_color])
                  img)"

definition decorative_family :: "font_obj \<Rightarrow> string" where
  \<comment> \<open>\<open>quote_font.getname()[0] if hasattr(quote_font, 'getname') else 'DejaVu Sans'\<close>\<close>
  "decorative_family quote_font =
     (case getname quote_font of None \<Rightarrow> ''DejaVu Sans'' | Some (family, style) \<Rightarrow> family)"

definition render_moderne_style ::
  "(int \<Rightarrow> string \<Rightarrow> string \<Rightarrow> font_obj) \<Rightarrow> int \<times> int \<Rightarrow> image \<Rightarrow> string list \<Rightarrow> string
     \<Rightarrow> font_obj \<Rightarrow> font_obj \<Rightarrow> rgb \<Rightarrow> rgb \<Rightarrow> int \<Rightarrow> int \<Rightarrow> image"
where
  "render_moderne_style get_font self_size img quote_lines author_name quote_font author_font
       text_color accent_color line_spacing padding =
     (let decorative_font = get_font FONT_SIZE_decorative ''bold'' (decorative_family quote_font);
          total_height = int (length quote_lines) * line_spacing + 80;
          start_y = (snd self_size - total_height) div 2
      in case draw_lines self_size quote_font text_color line_spacing start_y quote_lines of
           (line_ops, y_pos) \<Rightarrow>
             let author_text = em_dash @ '' '' @ author_name;
                 author_x = centred_x self_size author_font author_text;
                 line_y = y_pos + 85;
                 line_start = fst self_size div 2 - 70;
                 line_end = fst self_size div 2 + 70
             in draw ([DrawText (padding - 10, start_y - 45) [CHR 0x22] decorative_font accent_color]
                      @ line_ops
                      @ [DrawText (fst self_size - padding - 25, y_pos - 50) [CHR 0x22] decorative_font
                           accent_color,
                         DrawText (author_x, y_pos + 40) author_text author_font text_color,
                         DrawRectangle (line_start, line_y) (line_end, line_y + 3)
                           (Some accent_color) None 1])
                  img)"

definition render_elegant_style ::
  "(int \<Rightarrow> string \<Rightarrow> string \<Rightarrow> font_obj) \<Rightarrow> int \<times> int \<Rightarrow> image \<Rightarrow> string list \<Rightarrow> string
     \<Rightarrow> font_obj \<Rightarrow> font_obj \<Rightarrow> rgb \<Rightarrow> rgb \<Rightarrow> int \<Rightarrow> int \<Rightarrow> image"
where
  "render_elegant_style get_font self_size img quote_lines author_name quote_font author_font
       text_color accent_color line_spacing padding =
     (let margin = 45;
          decorative_font = get_font 55 ''bold'' (decorative_family quote_font);
          total_height = int (length quote_lines) * line_spacing + 80;
          start_y = (snd self_size - total_height) div 2
      in case draw_lines self_size quote_font text_color line_spacing start_y quote_lines of
           (line_ops, y_pos) \<Rightarrow>
             let author_text = em_dash @ '' '' @ author_name @ '' '' @ em_dash;
                 author_x = centred_x self_size author_font author_text;
                 diamond_y = y_pos + 85
             in draw ([DrawRectangle (margin, margin) (fst self_size - margin, snd self_size - margin)
                         None (Some accent_color) 2,
                       DrawText (padding + 5, start_y - 35) [CHR 0x22] decorative_font accent_color]
                      @ line_ops
                      @ [DrawText (fst self_size - padding - 35, y_pos - 45) [CHR 0x22] decorative_font
                           accent_color,
                         DrawText (author_x, y_pos + 40) author_text author_font text_color]
                      @ map (\<lambda>offset. let cx = fst self_size div 2 + offset
                                       in DrawPolygon [(cx, diamond_y - 4), (cx + 4, diamond_y),
                                                       (cx, diamond_y + 4), (cx - 4, diamond_y)]
                                            accent_color)
                          [- 90, 0, 90])
                  img)"

definition create_image ::
  "(int \<Rightarrow> string \<Rightarrow> string \<Rightarrow> font_obj) \<Rightarrow> int \<times> int \<Rightarrow> string \<Rightarrow> string \<Rightarrow> string list
     \<Rightarrow> string \<Rightarrow> string \<Rightarrow> py_error + image"
where
  "create_image get_font self_size quote_text author_name colors style font_family =
     (case colors of
        [] \<Rightarrow> Inl IndexError
      | c0 # cs \<Rightarrow>
          (case (if style \<in> {''moderne'', ''elegant'', elegant_accented} \<and> length colors \<ge> 2
                 then create_gradient_background self_size c0 c0
                 else (case hex_to_rgb c0 of Inl e \<Rightarrow> Inl e | Inr bg \<Rightarrow> image_new self_size bg)) of
             Inl e \<Rightarrow> Inl e
           | Inr img \<Rightarrow>
               (case hex_to_rgb (if length colors > 1 then colors ! 1 else ''#FFFFFF'') of
                  Inl e \<Rightarrow> Inl e
                | Inr text_color \<Rightarrow>
                    (case (if length colors > 2 then Inr (colors ! 2)
                           else if length colors > 1 then Inr (colors ! 1)
                           else Inl IndexError) of
                       Inl e \<Rightarrow> Inl e
                     | Inr accent_hex \<Rightarrow>
                         (case hex_to_rgb accent_hex of
                            Inl e \<Rightarrow> Inl e
                          | Inr accent_color \<Rightarrow>
                              let padding = (case map_of PADDING_BY_STYLE style of
                                               None \<Rightarrow> 100 | Some p \<Rightarrow> p);
                                  available_width = fst self_size - 2 * padding;
                                  font_size = calculate_font_size (int (length quote_text));
                                  quote_font = get_font font_size ''bold'' font_family;
                                  author_font = get_font FONT_SIZE_author ''regular'' font_family;
                                  quote_lines = wrap_text quote_text (getbbox quote_font) available_width;
                                  line_spacing = py_trunc (fmul (of_int font_size) (3 / 2))
                              in if style = ''minimal''
                                 then Inr (render_minimal_style self_size img quote_lines author_name quote_font
                                             author_font text_color line_spacing)
                                 else if style = ''moderne''
                                 then Inr (render_moderne_style get_font self_size img quote_lines author_name
                                             quote_font author_font text_color accent_color
                                             line_spacing padding)
                                 else if style \<in> {''elegant'', elegant_accented}
                                 then Inr (render_elegant_style get_font self_size img quote_lines author_name
                                             quote_font author_font text_color accent_color
                                             line_spacing padding)
                                 else Inr img)))))"

section \<open>Vocabulary of the properties\<close>

text \<open>A word as \<open>split()\<close> produces them: not empty, no whitespace in it.\<close>

definition proper_word :: "string \<Rightarrow> bool" where
  "proper_word w = (w \<noteq> [] \<and> list_all (\<lambda>c. \<not> isspace c) w)"

text \<open>
  The keyword list of a theme (empty when the table has none), and containment of a
  keyword in a text regardless of case: some stretch of the text equals the keyword once
  both are lowercased.
\<close>

definition theme_keywords :: "string \<Rightarrow> string list" where
  "theme_keywords theme =
     (case map_of THEME_KEYWORDS theme of Some (Some ks) \<Rightarrow> ks | _ \<Rightarrow> [])"

definition ci_substring :: "string \<Rightarrow> string \<Rightarrow> bool" where
  "ci_substring kw s = (\<exists>w. sublist w s \<and> lower w = lower kw)"

definition love_quote :: quote where
  "love_quote = \<lparr>content = ''All you need is LOVE'', author = ''Lennon'', tags = [],
     theme_key = None, length_key = None, id_key = None, source_key = None\<rparr>"

text \<open>
  A valid 6-digit hex colour, as the docstrings write it: \<open>#\<close> and six hex digits. The round
  trip of the claim is \<open>rgb_to_hex(hex_to_rgb(c))\<close>.
\<close>

definition valid_hex_color :: "string \<Rightarrow> bool" where
  "valid_hex_color c =
     (case c of [] \<Rightarrow> False
      | h # ds \<Rightarrow> h = CHR ''#'' \<and> length ds = 6 \<and> list_all (\<lambda>d. hex_digit d \<noteq> None) ds)"

definition roundtrip :: "string \<Rightarrow> py_error + string" where
  "roundtrip c = (case hex_to_rgb c of Inl e \<Rightarrow> Inl e | Inr rgb \<Rightarrow> Inr (rgb_to_hex rgb))"

text \<open>
  What \<open>get_random_quote\<close> writes into the entry it picks: the three keys \<open>length\<close>, \<open>id\<close>
  and \<open>source\<close>.
\<close>

definition local_fields :: "(string \<Rightarrow> int) \<Rightarrow> quote \<Rightarrow> quote" where
  "local_fields py_hash q =
     q\<lparr>length_key := Some (int (length (content q))),
       id_key := Some (''local_'' @ str_int (py_hash (content q))),
       source_key := Some ''local''\<rparr>"

text \<open>
  A stand-in for the interpreter's salted string hash, for the concrete runs below, and
  the pool after one call on the pool as the module defines it.
\<close>

definition sample_hash :: "string \<Rightarrow> int" where
  "sample_hash s = int (length s) - 100"

definition pool_after_auto :: "quote list" where
  "pool_after_auto =
     (case get_random_quote sample_hash 11 (Some ''auto'') FRENCH_QUOTES of
        Inr (i, p) \<Rightarrow> p | Inl e \<Rightarrow> [])"

text \<open>
  A world for the concrete runs: the clock at 1000, one remote reply that takes half a
  time unit and carries a quote, nothing else scripted.
\<close>

definition sample_world :: world where
  "sample_world =
     \<lparr>clock = 1000, replies = [(1 / 2, Body (Some ''You can do it and achieve success'') (Some ''X'') None)],
      oversleep = [], draws = [], saves = [], local_pool = FRENCH_QUOTES, LOCAL_OK = True,
      hash_fn = sample_hash, sent_at = []\<rparr>"

text \<open>
  The cached list (empty when the key is missing), its size, and a run of insertions,
  each with the time it is stamped with.
\<close>

definition cached :: "fetcher \<Rightarrow> quote list" where
  "cached f = (case cache_quotes f of None \<Rightarrow> [] | Some qs \<Rightarrow> qs)"






text \<open>The sample world with a disk on which the cache directory cannot be created.\<close>

definition mkdir_fails_world :: world where
  "mkdir_fails_world = sample_world\<lparr>saves := [MkdirFails]\<rparr>"

text \<open>
  A world whose scripted durations are not negative: no request and no sleep takes less
  than no time, that is, the clock does not run backwards while the fetcher waits.
\<close>

definition world_ok :: "world \<Rightarrow> bool" where
  "world_ok w = (list_all (\<lambda>dr. 0 \<le> fst dr) (replies w) \<and> list_all (\<lambda>x. 0 \<le> x) (oversleep w))"

text \<open>A call is served from the cache when step 1 finds a quote; else it reaches the remote phase.\<close>

definition served_from_cache :: "string \<Rightarrow> fetcher \<Rightarrow> world \<Rightarrow> bool" where
  "served_from_cache theme f w = (fst (cache_first theme f w) \<noteq> None)"

text \<open>
  From \<open>w\<close> to \<open>w'\<close> the clock did not go back, and every remote request sent in between
  was sent at \<open>T\<close> or later.
\<close>

definition sends_after :: "rat \<Rightarrow> world \<Rightarrow> world \<Rightarrow> bool" where
  "sends_after T w w' =
     (world_ok w' \<and> clock w \<le> clock w'
      \<and> (\<exists>new. sent_at w' = sent_at w @ new \<and> list_all (\<lambda>t. T \<le> t) new))"

text \<open>
  Two back-to-back calls for the concrete run: a new fetcher, the clock at 1000, a remote
  endpoint whose every request fails after a tenth of a time unit, no local pool.
\<close>

definition failing_world :: world where
  "failing_world =
     \<lparr>clock = 1000, replies = replicate 6 (1 / 10, Failure), oversleep = [], draws = [],
      saves = [], local_pool = [], LOCAL_OK = False, hash_fn = sample_hash, sent_at = []\<rparr>"

definition first_call :: "(py_error + quote) \<times> fetcher \<times> world" where
  "first_call = fetch_random_quote ''courage'' new_fetcher failing_world"

definition second_call :: "(py_error + quote) \<times> fetcher \<times> world" where
  "second_call = fetch_random_quote ''courage'' (fst (snd first_call)) (snd (snd first_call))"

text \<open>
  The padding \<open>create_image\<close> looks up for a style; a font whose glyphs are all half as wide
  as the font is high; a colour scheme.
\<close>

definition padding_of :: "string \<Rightarrow> int" where
  "padding_of style = (case map_of PADDING_BY_STYLE style of None \<Rightarrow> 100 | Some p \<Rightarrow> p)"

definition mono_font :: "int \<Rightarrow> string \<Rightarrow> string \<Rightarrow> font_obj" where
  "mono_font fsize weight family =
     \<lparr>getbbox = (\<lambda>s. (0, 0, fsize * int (length s) div 2, fsize)), getname = Some (family, weight)\<rparr>"

definition dark_scheme :: "string list" where
  "dark_scheme = [''#0E1117'', ''#FAFAFA'', ''#FF6B6B'']"

text \<open>
  For the concrete run: a stand-in digest (as many letters as the text is long), thirty
  digests inserted shortest first, and an enumeration by hash-table slot, the slot of a
  digest being 7 times its length modulo 64.
\<close>

definition sample_md5 :: "string \<Rightarrow> string" where
  "sample_md5 s = replicate (length s) CHR ''a''"

definition thirty_hashes :: "string list" where
  "thirty_hashes = map (\<lambda>k. replicate k CHR ''a'') [1 ..< 31]"

definition sample_slot :: "string \<Rightarrow> nat" where
  "sample_slot s = (7 * length s) mod 64"

definition sample_set_order :: "string list \<Rightarrow> string list" where
  "sample_set_order xs = sort_key sample_slot xs"

definition unique_run :: "quote option \<times> string list \<times> fetcher \<times> world" where
  "unique_run =
     fetch_unique_quote sample_md5 sample_set_order ''auto'' 10 thirty_hashes new_fetcher
       sample_world"

section \<open>Properties of the word wrap\<close>

lemma isspace_space: "isspace CHR '' ''"
  by (simp add: isspace_def)

lemma split_acc_sep:
  "isspace sp \<Longrightarrow> split_acc w (a @ sp # b) = split_acc w a @ split_acc [] b"
  by (induction a arbitrary: w) auto

lemma split_acc_word:
  "list_all (\<lambda>c. \<not> isspace c) u \<Longrightarrow> v @ u \<noteq> [] \<Longrightarrow> split_acc v u = [v @ u]"
  by (induction u arbitrary: v) auto

lemma py_split_word: "proper_word w \<Longrightarrow> py_split w = [w]"
  using split_acc_word [of w "[]"] by (simp add: proper_word_def py_split_def)

lemma py_split_Nil: "py_split [] = []"
  by (simp add: py_split_def)

lemma py_split_join:
  "py_split (py_join '' '' ls) = concat (map py_split ls)"
proof (induction ls)
  case Nil
  show ?case by (simp add: py_split_Nil)
next
  case (Cons x xs)
  show ?case
  proof (cases xs)
    case Nil
    then show ?thesis by simp
  next
    case (Cons y ys)
    have "py_split (x @ CHR '' '' # py_join '' '' (y # ys))
            = py_split x @ py_split (py_join '' '' (y # ys))"
      unfolding py_split_def by (rule split_acc_sep [OF isspace_space])
    with Cons.IH Cons show ?thesis by simp
  qed
qed

lemma py_split_join_words:
  "list_all proper_word ws \<Longrightarrow> py_split (py_join '' '' ws) = ws"
  by (induction ws) (simp_all add: py_split_join py_split_word py_split_Nil)

lemma split_acc_proper:
  "list_all (\<lambda>c. \<not> isspace c) w \<Longrightarrow> list_all proper_word (split_acc w s)"
  by (induction s arbitrary: w) (auto simp: proper_word_def)

lemma py_split_proper: "list_all proper_word (py_split s)"
  by (simp add: py_split_def split_acc_proper)

lemma wrap_text_close:
  "wrap_text text font max_width =
     (let ls = close_line (wrap_loop font max_width [] [] (py_split text))
      in if ls \<noteq> [] then ls else [text])"
  by (simp add: wrap_text_def close_line_def Let_def split: prod.splits)

lemma wrap_loop_words:
  "list_all proper_word cur \<Longrightarrow> list_all proper_word ws \<Longrightarrow>
   concat (map py_split (close_line (wrap_loop font m lines cur ws)))
     = concat (map py_split lines) @ cur @ ws"
proof (induction ws arbitrary: lines cur)
  case Nil
  then show ?case by (simp add: close_line_def py_split_join_words)
next
  case (Cons w ws)
  then show ?case by (simp add: Let_def py_split_join_words)
qed

text \<open>
  C7. Word-wrap idempotence: for every text, every font (any bounding-box measure) and
  every maximum width, wrapping the output of \<open>_wrap_text\<close> rejoined with single spaces,
  with the same font and width, gives exactly the lines of the first wrap.
\<close>

theorem wrap_text_idempotent:
  "wrap_text (py_join '' '' (wrap_text text font max_width)) font max_width
     = wrap_text text font max_width"
proof -
  define ls where "ls = close_line (wrap_loop font max_width [] [] (py_split text))"
  have words: "concat (map py_split ls) = py_split text"
    unfolding ls_def using wrap_loop_words [of "[]" "py_split text" font max_width "[]"]
    by (simp add: py_split_proper)
  show ?thesis
  proof (cases "ls = []")
    case True
    then have "wrap_text text font max_width = [text]"
      by (simp add: wrap_text_close ls_def [symmetric])
    then show ?thesis by simp
  next
    case False
    then have first: "wrap_text text font max_width = ls"
      by (simp add: wrap_text_close ls_def [symmetric])
    have "py_split (py_join '' '' ls) = py_split text"
      by (simp add: py_split_join words)
    then have "wrap_text (py_join '' '' ls) font max_width = ls"
      using False by (simp add: wrap_text_close ls_def [symmetric])
    with first show ?thesis by simp
  qed
qed

section \<open>Properties of theme matching\<close>

lemma py_in_sublist: "py_in sub s = sublist sub s"
  by (induction s) (auto simp: sublist_Cons_right)

lemma sublist_map_iff:
  "sublist kw (map f s) \<longleftrightarrow> (\<exists>w. sublist w s \<and> map f w = kw)"
proof
  assume "sublist kw (map f s)"
  then obtain ps ss where "map f s = ps @ kw @ ss" by (auto simp: sublist_def)
  then obtain a r where r: "s = a @ r" "map f r = kw @ ss"
    by (metis map_eq_append_conv)
  then obtain b c where "r = b @ c" "map f b = kw"
    by (metis map_eq_append_conv)
  with r have "s = a @ b @ c" "map f b = kw" by simp_all
  then show "\<exists>w. sublist w s \<and> map f w = kw" by (auto simp: sublist_def)
next
  assume "\<exists>w. sublist w s \<and> map f w = kw"
  then obtain w ps ss where "s = ps @ w @ ss" "map f w = kw"
    by (auto simp: sublist_def)
  then have "map f s = map f ps @ kw @ map f ss" by simp
  then show "sublist kw (map f s)" unfolding sublist_def by blast
qed

lemma ci_substring_code:
  "ci_substring kw s = py_in (lower kw) (lower s)"
  unfolding ci_substring_def py_in_sublist lower_def sublist_map_iff by auto

lemma keyword_loop_iff:
  "keyword_loop ks cl = (\<exists>kw \<in> set ks. py_in kw cl)"
  by (induction ks) auto

lemma table_lowercase:
  "map_of THEME_KEYWORDS theme = Some (Some ks) \<Longrightarrow> kw \<in> set ks \<Longrightarrow> lower kw = kw"
  by (auto simp: THEME_KEYWORDS_def lower_def lower_char_def split: if_splits)


lemma table_nonempty:
  "theme \<in> fst ` set THEME_KEYWORDS \<Longrightarrow> theme \<noteq> ''auto'' \<Longrightarrow>
   \<exists>ks. map_of THEME_KEYWORDS theme = Some (Some ks) \<and> ks \<noteq> []"
  by (auto simp: THEME_KEYWORDS_def)

lemma matches_theme_keywords:
  assumes "map_of THEME_KEYWORDS theme = Some (Some ks)" "ks \<noteq> []" "theme \<noteq> ''auto''"
  shows "matches_theme q theme = (\<exists>kw \<in> set ks. ci_substring kw (content q))"
proof -
  have "matches_theme q theme = (\<exists>kw \<in> set ks. py_in kw (lower (content q)))"
    using assms by (simp add: matches_theme_def keyword_loop_iff)
  also have "\<dots> = (\<exists>kw \<in> set ks. py_in (lower kw) (lower (content q)))"
    using table_lowercase [OF assms(1)] by auto
  finally show ?thesis by (simp add: ci_substring_code)
qed

lemma matches_theme_no_keywords:
  "theme_keywords theme = [] \<Longrightarrow> matches_theme q theme"
  by (auto simp: theme_keywords_def matches_theme_def split: option.splits)

text \<open>
  C8. Theme matching. For every theme of the keyword table other than \<open>auto\<close> and every
  record, \<open>_matches_theme\<close> answers \<open>True\<close> exactly when the record's content contains one
  of the theme's keywords as a case-insensitive substring. The theme \<open>auto\<close> matches every
  record, and so does every theme without a keyword list.
\<close>

theorem matches_theme_spec:
  "(theme \<in> fst ` set THEME_KEYWORDS \<and> theme \<noteq> ''auto'' \<longrightarrow>
      (matches_theme q theme
         \<longleftrightarrow> (\<exists>kw \<in> set (theme_keywords theme). ci_substring kw (content q))))
   \<and> matches_theme q ''auto''
   \<and> (theme_keywords theme = [] \<longrightarrow> matches_theme q theme)"
proof (intro conjI impI)
  assume "theme \<in> fst ` set THEME_KEYWORDS \<and> theme \<noteq> ''auto''"
  then obtain ks where ks: "map_of THEME_KEYWORDS theme = Some (Some ks)" "ks \<noteq> []"
    and na: "theme \<noteq> ''auto''"
    using table_nonempty by blast
  then have "theme_keywords theme = ks" by (simp add: theme_keywords_def)
  then show "matches_theme q theme
      \<longleftrightarrow> (\<exists>kw \<in> set (theme_keywords theme). ci_substring kw (content q))"
    using matches_theme_keywords [OF ks na] by simp
next
  show "matches_theme q ''auto''" by (simp add: matches_theme_def)
next
  assume "theme_keywords theme = []"
  then show "matches_theme q theme" by (rule matches_theme_no_keywords)
qed

theorem matches_theme_spec_witness:
  "''amour'' \<in> fst ` set THEME_KEYWORDS \<and> ''amour'' \<noteq> ''auto''
   \<and> matches_theme love_quote ''amour''
   \<and> (\<exists>kw \<in> set (theme_keywords ''amour''). ci_substring kw (content love_quote))
   \<and> ''courage'' \<in> fst ` set THEME_KEYWORDS
   \<and> \<not> matches_theme love_quote ''courage''
   \<and> \<not> (\<exists>kw \<in> set (theme_keywords ''courage''). ci_substring kw (content love_quote))
   \<and> theme_keywords ''voyage'' = [] \<and> matches_theme love_quote ''voyage''"
proof -
  have a: "''amour'' \<in> fst ` set THEME_KEYWORDS \<and> ''amour'' \<noteq> ''auto''"
    by (simp add: THEME_KEYWORDS_def)
  have c: "''courage'' \<in> fst ` set THEME_KEYWORDS \<and> ''courage'' \<noteq> ''auto''"
    by (simp add: THEME_KEYWORDS_def)
  have m: "matches_theme love_quote ''amour''" by code_simp
  have n: "\<not> matches_theme love_quote ''courage''" by code_simp
  have v: "theme_keywords ''voyage'' = []" by code_simp
  from matches_theme_spec [of "''amour''" love_quote] a m
  have 1: "\<exists>kw \<in> set (theme_keywords ''amour''). ci_substring kw (content love_quote)"
    by blast
  from matches_theme_spec [of "''courage''" love_quote] c n
  have 2: "\<not> (\<exists>kw \<in> set (theme_keywords ''courage''). ci_substring kw (content love_quote))"
    by blast
  from matches_theme_spec [of "''voyage''" love_quote] v
  have 3: "matches_theme love_quote ''voyage''" by blast
  from a c m n v 1 2 3 show ?thesis by blast
qed

section \<open>Properties of the colour conversions\<close>

lemma hex_digit_facts:
  assumes "hex_digit c = Some d"
  shows "d < 16" "\<not> int_space c" "c \<noteq> CHR ''+''" "c \<noteq> CHR ''-''" "c \<noteq> CHR ''_''"
    "c \<noteq> CHR ''x''" "c \<noteq> CHR ''X''" "c \<noteq> CHR ''#''"
  using assms by (auto simp: hex_digit_def int_space_def Let_def split: if_splits)

lemma py_int16_two:
  assumes "hex_digit a = Some x" "hex_digit b = Some y"
  shows "py_int16 [a, b] = Inr (int (16 * x + y))"
  using assms hex_digit_facts [OF assms(1)] hex_digit_facts [OF assms(2)]
  by (simp add: py_int16_def)

lemma hex_char_lower:
  assumes "hex_digit c = Some d"
  shows "hex_char d = lower_char c"
  using assms
  by (auto simp: hex_digit_def hex_char_def lower_char_def Let_def split: if_splits)

lemma hex_nat_small: "n < 16 \<Longrightarrow> hex_nat n = [hex_char n]"
  by simp

lemma hex_nat_two:
  assumes "x < 16" "y < 16" "0 < x"
  shows "hex_nat (16 * x + y) = [hex_char x, hex_char y]"
proof -
  have d: "(16 * x + y) div 16 = x" and m: "(16 * x + y) mod 16 = y"
    using assms by simp_all
  have "\<not> 16 * x + y < 16" using assms by simp
  then have "hex_nat (16 * x + y)
      = hex_nat ((16 * x + y) div 16) @ [hex_char ((16 * x + y) mod 16)]"
    by (subst hex_nat.simps) simp
  also have "\<dots> = hex_nat x @ [hex_char y]" by (simp only: d m)
  finally show ?thesis using assms(1) by (simp add: hex_nat_small del: hex_nat.simps)
qed

lemma hex_char_zero: "hex_char 0 = CHR ''0''"
  by code_simp

lemma format_02x_two:
  assumes "x < 16" "y < 16"
  shows "format_02x (int (16 * x + y)) = [hex_char x, hex_char y]"
proof (cases "x = 0")
  case True
  then show ?thesis
    using assms by (simp add: format_02x_def hex_char_zero del: hex_nat.simps add: hex_nat_small)
next
  case False
  then have "hex_nat (16 * x + y) = [hex_char x, hex_char y]"
    using assms by (intro hex_nat_two) simp_all
  moreover have "nat (int (16 * x + y)) = 16 * x + y" by simp
  ultimately show ?thesis
    unfolding format_02x_def by (simp del: hex_nat.simps of_nat_add of_nat_mult)
qed

lemma py_int16_pair:
  assumes "hex_digit a \<noteq> None" "hex_digit b \<noteq> None"
  shows "\<exists>n. py_int16 [a, b] = Inr n \<and> format_02x n = [lower_char a, lower_char b]"
proof -
  from assms obtain x y where xy: "hex_digit a = Some x" "hex_digit b = Some y" by auto
  then have "py_int16 [a, b] = Inr (int (16 * x + y))" by (rule py_int16_two)
  moreover have "format_02x (int (16 * x + y)) = [lower_char a, lower_char b]"
    using xy hex_digit_facts(1) [OF xy(1)] hex_digit_facts(1) [OF xy(2)]
    by (simp add: format_02x_two hex_char_lower del: of_nat_add of_nat_mult)
  ultimately show ?thesis by blast
qed

lemma valid_hex_colorE:
  assumes "valid_hex_color c"
  obtains a b d e f g where "c = [CHR ''#'', a, b, d, e, f, g]"
    "hex_digit a \<noteq> None" "hex_digit b \<noteq> None" "hex_digit d \<noteq> None"
    "hex_digit e \<noteq> None" "hex_digit f \<noteq> None" "hex_digit g \<noteq> None"
proof -
  from assms obtain ds where c: "c = CHR ''#'' # ds" and l: "length ds = 6"
    and h: "list_all (\<lambda>d. hex_digit d \<noteq> None) ds"
    by (auto simp: valid_hex_color_def split: list.splits)
  from l obtain a b d e f g where "ds = [a, b, d, e, f, g]"
    by (auto simp: length_Suc_conv eval_nat_numeral)
  with c h that show ?thesis by simp
qed

lemma hex_to_rgb_valid:
  assumes "hex_digit a \<noteq> None" "hex_digit b \<noteq> None" "hex_digit d \<noteq> None"
    "hex_digit e \<noteq> None" "hex_digit f \<noteq> None" "hex_digit g \<noteq> None"
  shows "\<exists>r gr bl. hex_to_rgb [CHR ''#'', a, b, d, e, f, g] = Inr (r, gr, bl)
     \<and> rgb_to_hex (r, gr, bl)
        = [CHR ''#'', lower_char a, lower_char b, lower_char d, lower_char e,
           lower_char f, lower_char g]"
proof -
  obtain r where r: "py_int16 [a, b] = Inr r" "format_02x r = [lower_char a, lower_char b]"
    using py_int16_pair [OF assms(1,2)] by blast
  obtain gr where g: "py_int16 [d, e] = Inr gr" "format_02x gr = [lower_char d, lower_char e]"
    using py_int16_pair [OF assms(3,4)] by blast
  obtain bl where b: "py_int16 [f, g] = Inr bl" "format_02x bl = [lower_char f, lower_char g]"
    using py_int16_pair [OF assms(5,6)] by blast
  have na: "a \<noteq> CHR ''#''" using assms(1) hex_digit_facts(8) by blast
  have "hex_to_rgb [CHR ''#'', a, b, d, e, f, g] = Inr (r, gr, bl)"
    using na r(1) g(1) b(1) by (simp add: hex_to_rgb_def)
  moreover have "rgb_to_hex (r, gr, bl)
        = [CHR ''#'', lower_char a, lower_char b, lower_char d, lower_char e,
           lower_char f, lower_char g]"
    by (simp add: rgb_to_hex_def r(2) g(2) b(2))
  ultimately show ?thesis by blast
qed

lemma lower_hash: "lower_char CHR ''#'' = CHR ''#''"
  by (simp add: lower_char_def)

text \<open>
  C5 (as amended). For every valid 6-digit hex colour \<open>c\<close>, \<open>rgb_to_hex(hex_to_rgb(c))\<close> raises
  nothing and returns \<open>c.lower()\<close>: \<open>rgb_to_hex\<close> formats with \<open>{:02x}\<close>, which writes lowercase
  digits. The round trip therefore returns \<open>c\<close> itself exactly when \<open>c\<close> has no uppercase digit.
\<close>

theorem roundtrip_lowercases:
  "valid_hex_color c \<Longrightarrow> roundtrip c = Inr (lower c)"
proof -
  assume "valid_hex_color c"
  then obtain a b d e f g where c: "c = [CHR ''#'', a, b, d, e, f, g]"
    and h: "hex_digit a \<noteq> None" "hex_digit b \<noteq> None" "hex_digit d \<noteq> None"
      "hex_digit e \<noteq> None" "hex_digit f \<noteq> None" "hex_digit g \<noteq> None"
    by (rule valid_hex_colorE)
  from hex_to_rgb_valid [OF h] obtain r gr bl where
    "hex_to_rgb c = Inr (r, gr, bl)" "rgb_to_hex (r, gr, bl) = lower c"
    unfolding c by (auto simp: lower_def lower_hash)
  then show ?thesis by (simp add: roundtrip_def)
qed

text \<open>
  C5 as stated fails on an uppercase colour, such as \<open>#FFD93D\<close> of the palette tables: the
  round trip returns \<open>#ffd93d\<close>.
\<close>

theorem roundtrip_counterexample:
  "valid_hex_color ''#FFD93D'' \<and> roundtrip ''#FFD93D'' = Inr ''#ffd93d''
   \<and> roundtrip ''#FFD93D'' \<noteq> Inr ''#FFD93D''"
  by code_simp

theorem roundtrip_lowercases_witness:
  "valid_hex_color ''#ffd93d'' \<and> roundtrip ''#ffd93d'' = Inr ''#ffd93d''
   \<and> valid_hex_color ''#1A1A1A'' \<and> roundtrip ''#1A1A1A'' = Inr ''#1a1a1a''"
proof -
  have v1: "valid_hex_color ''#ffd93d''" by code_simp
  have v2: "valid_hex_color ''#1A1A1A''" by code_simp
  have l1: "lower ''#ffd93d'' = ''#ffd93d''" by code_simp
  have l2: "lower ''#1A1A1A'' = ''#1a1a1a''" by code_simp
  from roundtrip_lowercases [OF v1] roundtrip_lowercases [OF v2] v1 v2 l1 l2
  show ?thesis by simp
qed


lemma fl_299: "fl (299 / 1000) = 5386305154335113 / 18014398509481984"
  by code_simp

lemma fl_587: "fl (587 / 1000) = 2643612981266481 / 4503599627370496"
  by code_simp

lemma fl_114: "fl (114 / 1000) = 8214565720323785 / 72057594037927936"
  by code_simp

lemma dark_text_m0: "fmul 26 (5386305154335113 / 18014398509481984) = 8752745875794559 / 1125899906842624"
  by code_simp

lemma dark_text_m1: "fmul 26 (2643612981266481 / 4503599627370496) = 8591742189116063 / 562949953421312"
  by code_simp

lemma dark_text_m2: "fmul 26 (8214565720323785 / 72057594037927936) = 6674334647763075 / 2251799813685248"
  by code_simp

lemma dark_text_a0: "fadd (8752745875794559 / 1125899906842624) (8591742189116063 / 562949953421312) = 6484057563506671 / 281474976710656"
  by code_simp

lemma dark_text_a1: "fadd (6484057563506671 / 281474976710656) (6674334647763075 / 2251799813685248) = 7318349394477055 / 281474976710656"
  by code_simp

lemma dark_text_rgb: "hex_to_rgb ''#1A1A1A'' = Inr (26, 26, 26)"
  by code_simp

lemma brightness_dark_text:
  "calculate_brightness ''#1A1A1A'' = Inr (7318349394477055 / 281474976710656)"
  by (simp only: calculate_brightness_def dark_text_rgb sum.case prod.case of_int_numeral
      fl_299 fl_587 fl_114
      dark_text_m0 dark_text_m1 dark_text_m2 dark_text_a0 dark_text_a1)

lemma light_text_m0: "fmul 250 (5386305154335113 / 18014398509481984) = 299 / 4"
  by code_simp

lemma light_text_m1: "fmul 250 (2643612981266481 / 4503599627370496) = 587 / 4"
  by code_simp

lemma light_text_m2: "fmul 250 (8214565720323785 / 72057594037927936) = 57 / 2"
  by code_simp

lemma light_text_a0: "fadd (299 / 4) (587 / 4) = 443 / 2"
  by code_simp

lemma light_text_a1: "fadd (443 / 2) (57 / 2) = 250"
  by code_simp

lemma light_text_rgb: "hex_to_rgb ''#FAFAFA'' = Inr (250, 250, 250)"
  by code_simp

lemma brightness_light_text:
  "calculate_brightness ''#FAFAFA'' = Inr (250)"
  by (simp only: calculate_brightness_def light_text_rgb sum.case prod.case of_int_numeral
      fl_299 fl_587 fl_114
      light_text_m0 light_text_m1 light_text_m2 light_text_a0 light_text_a1)

lemma dark_text_side: "\<exists>bt. calculate_brightness ''#1A1A1A'' = Inr bt \<and> bt \<le> 128"
proof -
  have "(7318349394477055 / 281474976710656 :: rat) \<le> 128" by simp
  with brightness_dark_text show ?thesis by blast
qed

lemma light_text_side: "\<exists>bt. calculate_brightness ''#FAFAFA'' = Inr bt \<and> 128 < bt"
proof -
  have "(128 :: rat) < 250" by simp
  with brightness_light_text show ?thesis by blast
qed

lemma calculate_brightness_valid:
  assumes "valid_hex_color bg"
  shows "\<exists>bb. calculate_brightness bg = Inr bb"
proof -
  from assms obtain a b d e f g where c: "bg = [CHR ''#'', a, b, d, e, f, g]"
    and h: "hex_digit a \<noteq> None" "hex_digit b \<noteq> None" "hex_digit d \<noteq> None"
      "hex_digit e \<noteq> None" "hex_digit f \<noteq> None" "hex_digit g \<noteq> None"
    by (rule valid_hex_colorE)
  from hex_to_rgb_valid [OF h] obtain r gr bl where "hex_to_rgb bg = Inr (r, gr, bl)"
    unfolding c by blast
  then show ?thesis by (simp add: calculate_brightness_def)
qed

text \<open>
  C6. Contrast enforcement: for every valid background colour, \<open>ensure_contrast\<close> raises nothing
  and returns a text colour whose brightness, computed by \<open>calculate_brightness\<close> as the
  background's is, lies on the other side of 128: the near-black \<open>#1A1A1A\<close> (brightness at
  most 128) when the background's brightness exceeds 128, else the near-white \<open>#FAFAFA\<close>
  (brightness above 128).
\<close>

theorem ensure_contrast_opposite_side:
  assumes "valid_hex_color bg"
  shows "\<exists>bb t bt. calculate_brightness bg = Inr bb
      \<and> ensure_contrast bg text_color min_brightness_diff = Inr t
      \<and> calculate_brightness t = Inr bt
      \<and> (128 < bb \<longrightarrow> t = ''#1A1A1A'' \<and> bt \<le> 128)
      \<and> (bb \<le> 128 \<longrightarrow> t = ''#FAFAFA'' \<and> 128 < bt)"
proof -
  from calculate_brightness_valid [OF assms] obtain bb where bb: "calculate_brightness bg = Inr bb"
    by blast
  show ?thesis
  proof (cases "128 < bb")
    case True
    then have "ensure_contrast bg text_color min_brightness_diff = Inr ''#1A1A1A''"
      using bb by (simp add: ensure_contrast_def)
    with True bb dark_text_side show ?thesis by auto
  next
    case False
    then have "ensure_contrast bg text_color min_brightness_diff = Inr ''#FAFAFA''"
      using bb by (simp add: ensure_contrast_def)
    with False bb light_text_side show ?thesis by auto
  qed
qed

theorem ensure_contrast_opposite_side_witness:
  "valid_hex_color ''#FAFAFA''
   \<and> ensure_contrast ''#FAFAFA'' ''#2C2C2C'' 125 = Inr ''#1A1A1A''
   \<and> valid_hex_color ''#1A1A1A''
   \<and> ensure_contrast ''#1A1A1A'' ''#2C2C2C'' 125 = Inr ''#FAFAFA''"
proof -
  have v1: "valid_hex_color ''#FAFAFA''" by code_simp
  have v2: "valid_hex_color ''#1A1A1A''" by code_simp
  have b1: "(128::rat) < 250" by simp
  have b2: "(7318349394477055 / 281474976710656 :: rat) \<le> 128" by simp
  from ensure_contrast_opposite_side [OF v1, of "''#2C2C2C''" 125] b1
  have 1: "ensure_contrast ''#FAFAFA'' ''#2C2C2C'' 125 = Inr ''#1A1A1A''"
    unfolding brightness_light_text by auto
  from ensure_contrast_opposite_side [OF v2, of "''#2C2C2C''" 125] b2
  have 2: "ensure_contrast ''#1A1A1A'' ''#2C2C2C'' 125 = Inr ''#FAFAFA''"
    unfolding brightness_dark_text by auto
  from v1 v2 1 2 show ?thesis by simp
qed

section \<open>Properties of the local pool\<close>

lemma choice_member:
  "seq \<noteq> [] \<Longrightarrow> \<exists>x. choice r seq = Inr x \<and> x \<in> set seq"
  by (simp add: choice_def)

lemma picked_in_range:
  assumes "pool \<noteq> []"
  shows "\<exists>i. i < length pool \<and>
     (case theme of
        None \<Rightarrow> choice r [0 ..< length pool]
      | Some th \<Rightarrow>
          if th \<noteq> [] \<and> th \<noteq> ''auto''
          then (let filtered = filter (\<lambda>i. theme_filter th (pool ! i)) [0 ..< length pool]
                in if filtered \<noteq> [] then choice r filtered else choice r [0 ..< length pool])
          else choice r [0 ..< length pool]) = Inr i"
proof -
  have all: "\<exists>i. choice r [0 ..< length pool] = Inr i \<and> i < length pool"
    using choice_member [of "[0 ..< length pool]" r] assms by auto
  have some: "\<exists>i. choice r (filter P [0 ..< length pool]) = Inr i \<and> i < length pool"
    if "filter P [0 ..< length pool] \<noteq> []" for P
    using choice_member [OF that, of r] by auto
  show ?thesis
  proof (cases theme)
    case None
    with all show ?thesis by auto
  next
    case (Some th)
    show ?thesis
    proof (cases "th \<noteq> [] \<and> th \<noteq> ''auto''
        \<and> filter (\<lambda>i. theme_filter th (pool ! i)) [0 ..< length pool] \<noteq> []")
      case True
      with some [of "\<lambda>i. theme_filter th (pool ! i)"] Some show ?thesis
        by (auto simp: Let_def)
    next
      case False
      with all Some show ?thesis by (auto simp: Let_def)
    qed
  qed
qed

text \<open>
  C9 (as amended). Fetching from a non-empty local pool raises nothing and returns one of
  the pool's own entries, into which it has written \<open>length\<close>, \<open>id\<close> and \<open>source\<close>; the
  entry's \<open>content\<close>, \<open>author\<close>, \<open>tags\<close> and \<open>theme\<close> stay as they were, and every other
  entry of the pool is unmodified.
\<close>

theorem get_random_quote_frame:
  assumes "pool \<noteq> []"
  shows "\<exists>i pool'. get_random_quote py_hash r theme pool = Inr (i, pool')
     \<and> i < length pool \<and> length pool' = length pool
     \<and> pool' ! i = local_fields py_hash (pool ! i)
     \<and> content (pool' ! i) = content (pool ! i) \<and> author (pool' ! i) = author (pool ! i)
     \<and> tags (pool' ! i) = tags (pool ! i) \<and> theme_key (pool' ! i) = theme_key (pool ! i)
     \<and> (\<forall>j < length pool. j \<noteq> i \<longrightarrow> pool' ! j = pool ! j)"
proof -
  from picked_in_range [OF assms, where theme = theme and r = r] obtain i where i: "i < length pool"
    and p: "(case theme of
        None \<Rightarrow> choice r [0 ..< length pool]
      | Some th \<Rightarrow>
          if th \<noteq> [] \<and> th \<noteq> ''auto''
          then (let filtered = filter (\<lambda>i. theme_filter th (pool ! i)) [0 ..< length pool]
                in if filtered \<noteq> [] then choice r filtered else choice r [0 ..< length pool])
          else choice r [0 ..< length pool]) = Inr i"
    by blast
  have "get_random_quote py_hash r theme pool
      = Inr (i, pool[i := local_fields py_hash (pool ! i)])"
    unfolding get_random_quote_def Let_def p [unfolded Let_def]
    by (simp add: local_fields_def)
  with i show ?thesis by (simp add: local_fields_def)
qed

theorem get_random_quote_frame_witness:
  "FRENCH_QUOTES \<noteq> []
   \<and> (\<exists>i pool'. get_random_quote sample_hash 7 (Some ''courage'') FRENCH_QUOTES = Inr (i, pool')
        \<and> i < length FRENCH_QUOTES
        \<and> pool' ! i = local_fields sample_hash (FRENCH_QUOTES ! i)
        \<and> content (pool' ! i) = content (FRENCH_QUOTES ! i))"
proof -
  have ne: "FRENCH_QUOTES \<noteq> []" by (simp add: FRENCH_QUOTES_def)
  from get_random_quote_frame [OF ne, of sample_hash 7 "Some ''courage''"] ne
  show ?thesis by blast
qed

lemma french_length: "length FRENCH_QUOTES = 20"
  by (simp add: FRENCH_QUOTES_def)

lemma french_11:
  "FRENCH_QUOTES ! 11
     = pool_entry ''Ce qui ne nous tue pas nous rend plus fort.'' ''Friedrich Nietzsche''
         [''courage''] ''courage''"
  by (simp add: FRENCH_QUOTES_def)

lemma pool_after_auto_eq:
  "pool_after_auto = FRENCH_QUOTES[11 := local_fields sample_hash (FRENCH_QUOTES ! 11)]"
  by (simp add: pool_after_auto_def get_random_quote_def choice_def french_length
      local_fields_def Let_def)

lemma french_11_before:
  "source_key (FRENCH_QUOTES ! 11) = None \<and> length_key (FRENCH_QUOTES ! 11) = None"
  by (simp add: french_11 pool_entry_def)

lemma french_11_after:
  "source_key (pool_after_auto ! 11) = Some ''local''
   \<and> length_key (pool_after_auto ! 11) = Some 43"
  by (simp add: pool_after_auto_eq french_length local_fields_def french_11 pool_entry_def)

text \<open>
  C9 as stated fails: the call writes into the static pool's own entry. On the pool as
  the module defines it, a fetch for \<open>auto\<close> whose draw is 11 returns entry 11 and leaves it
  with a \<open>source\<close> and a \<open>length\<close> it did not have.
\<close>

theorem pool_entry_mutated_counterexample:
  "pool_after_auto \<noteq> FRENCH_QUOTES
   \<and> source_key (FRENCH_QUOTES ! 11) = None
   \<and> source_key (pool_after_auto ! 11) = Some ''local''
   \<and> length_key (FRENCH_QUOTES ! 11) = None
   \<and> length_key (pool_after_auto ! 11) = Some 43"
  using french_11_before french_11_after by auto

section \<open>Properties of the cache\<close>



lemma cache_insert_last [simp]:
  "last_request_time (cache_insert q now f) = last_request_time f"
  by (simp add: cache_insert_def Let_def)



lemma fallback_chain_fetcher [simp]: "fst (snd (fallback_chain theme f w)) = f"
  by (simp add: fallback_chain_def split: prod.splits option.splits)


















text \<open>
  C3 fails on the code. \<open>_save_cache\<close> creates the cache directory before its \<open>try\<close>, so an
  \<open>OSError\<close> of \<open>mkdir\<close> (a read-only disk, a file named \<open>data\<close>) is not caught there, and
  nothing above catches it: it leaves \<open>fetch_random_quote\<close>. The run: an empty cache, a
  remote reply with a quote, a disk on which \<open>mkdir\<close> fails.
\<close>

theorem mkdir_error_escapes:
  "fst (fetch_random_quote ''auto'' new_fetcher mkdir_fails_world) = Inl OSError"
  by code_simp

section \<open>Properties of the rate limit\<close>

lemma sends_after_refl: "world_ok w \<Longrightarrow> sends_after T w w"
  by (simp add: sends_after_def)

lemma sends_after_trans:
  "sends_after T w w' \<Longrightarrow> sends_after T w' w'' \<Longrightarrow> sends_after T w w''"
  by (auto simp: sends_after_def)

lemma sends_after_same:
  "world_ok w' \<Longrightarrow> clock w' = clock w \<Longrightarrow> sent_at w' = sent_at w \<Longrightarrow> sends_after T w w'"
  by (simp add: sends_after_def)

lemma time_sleep_ok:
  assumes "world_ok w" "0 \<le> secs"
  shows "sends_after T w (time_sleep secs w)" "clock w + secs \<le> clock (time_sleep secs w)"
  using assms by (auto simp: sends_after_def time_sleep_def world_ok_def split: list.splits)

lemma between_attempts_ok: "world_ok w \<Longrightarrow> sends_after T w (between_attempts n w)"
  by (simp add: between_attempts_def time_sleep_ok sends_after_refl)

lemma fetch_single_quote_ok:
  assumes "world_ok w" "T \<le> clock w"
  shows "sends_after T w (snd (fetch_single_quote w))"
  using assms
  by (auto simp: sends_after_def fetch_single_quote_def world_ok_def Let_def
      split: list.splits remote_reply.splits)

lemma save_cache_ok: "world_ok w \<Longrightarrow> sends_after T w (snd (save_cache w))"
  by (auto simp: sends_after_def save_cache_def world_ok_def split: list.splits disk_reply.splits)

lemma random_choice_ok: "world_ok w \<Longrightarrow> sends_after T w (snd (random_choice seq w))"
  by (auto simp: sends_after_def random_choice_def world_ok_def split: list.splits)

lemma random_choice_okD:
  "world_ok w \<Longrightarrow> random_choice seq w = (q, w1) \<Longrightarrow> sends_after T w w1"
  using random_choice_ok [of w T seq] by simp

lemma get_from_cache_ok: "world_ok w \<Longrightarrow> sends_after T w (snd (get_from_cache theme f w))"
  by (auto simp: get_from_cache_def Let_def sends_after_refl
      split: option.splits prod.splits intro: random_choice_okD)

lemma local_quote_ok: "world_ok w \<Longrightarrow> sends_after T w (snd (local_quote theme w))"
  by (auto simp: sends_after_def local_quote_def world_ok_def Let_def split: sum.splits)

lemma sends_after_clock: "sends_after T w w' \<Longrightarrow> T \<le> clock w \<Longrightarrow> T \<le> clock w'"
  by (auto simp: sends_after_def)

lemma sends_after_world_ok: "sends_after T w w' \<Longrightarrow> world_ok w'"
  by (simp add: sends_after_def)

lemma attempt_loop_ok:
  "world_ok w \<Longrightarrow> T \<le> clock w \<Longrightarrow>
   sends_after T w (snd (snd (attempt_loop ns theme f w)))
   \<and> last_request_time (fst (snd (attempt_loop ns theme f w))) = last_request_time f"
proof (induction ns arbitrary: f w)
  case Nil
  then show ?case by (simp add: sends_after_refl)
next
  case (Cons n ns)
  obtain quote w1 where fs: "fetch_single_quote w = (quote, w1)"
    by (cases "fetch_single_quote w")
  have s1: "sends_after T w w1"
    using fetch_single_quote_ok [OF Cons.prems] fs by simp
  show ?case
  proof (cases quote)
    case None
    let ?w2 = "between_attempts n w1"
    have s2: "sends_after T w ?w2"
      using s1 between_attempts_ok [OF sends_after_world_ok [OF s1]] sends_after_trans by blast
    from Cons.IH [OF sends_after_world_ok [OF s2] sends_after_clock [OF s2 Cons.prems(2)]]
    show ?thesis using fs None s2 sends_after_trans by auto
  next
    case (Some q)
    obtain err w2 where sc: "save_cache w1 = (err, w2)" by (cases "save_cache w1")
    have s2: "sends_after T w w2"
      using s1 save_cache_ok [OF sends_after_world_ok [OF s1], of T] sc sends_after_trans
      by fastforce
    let ?w3 = "between_attempts n w2"
    have s3: "sends_after T w ?w3"
      using s2 between_attempts_ok [OF sends_after_world_ok [OF s2]] sends_after_trans by blast
    from Cons.IH [OF sends_after_world_ok [OF s3] sends_after_clock [OF s3 Cons.prems(2)]]
    have ih: "sends_after T w (snd (snd (attempt_loop ns theme (cache_insert q (clock w1) f) ?w3)))
      \<and> last_request_time (fst (snd (attempt_loop ns theme (cache_insert q (clock w1) f) ?w3)))
          = last_request_time f"
      using s3 sends_after_trans by (auto simp: cache_insert_def Let_def)
    show ?thesis
      using fs Some sc s2 ih
      by (cases err) (auto simp: Let_def cache_insert_def)
  qed
qed

lemma wait_for_rate_limit_ok:
  assumes "world_ok w" "wait_for_rate_limit f w = (f1, w1)"
  shows "last_request_time f1 = clock w1" "last_request_time f + MIN_REQUEST_DELAY \<le> clock w1"
    "sends_after T w w1" "sent_at w1 = sent_at w"
proof -
  let ?e = "clock w - last_request_time f"
  show "last_request_time f1 = clock w1"
    using assms(2) by (auto simp: wait_for_rate_limit_def Let_def)
  show "last_request_time f + MIN_REQUEST_DELAY \<le> clock w1"
  proof (cases "?e < MIN_REQUEST_DELAY")
    case True
    then have "w1 = time_sleep (MIN_REQUEST_DELAY - ?e) w"
      using assms(2) by (auto simp: wait_for_rate_limit_def Let_def)
    with time_sleep_ok(2) [OF assms(1), of "MIN_REQUEST_DELAY - ?e"] True show ?thesis by simp
  next
    case False
    then have "w1 = w" using assms(2) by (auto simp: wait_for_rate_limit_def Let_def)
    with False show ?thesis by simp
  qed
  show "sends_after T w w1"
    using assms time_sleep_ok(1) [OF assms(1), of "MIN_REQUEST_DELAY - ?e" T]
    by (auto simp: wait_for_rate_limit_def Let_def sends_after_refl split: if_splits)
  show "sent_at w1 = sent_at w"
    using assms(2)
    by (auto simp: wait_for_rate_limit_def Let_def time_sleep_def split: if_splits list.splits)
qed


lemma fallback_chain_ok:
  assumes "world_ok w"
  shows "sends_after T w (snd (snd (fallback_chain theme f w)))"
proof -
  obtain c w3 where g: "get_from_cache theme f w = (c, w3)" by (cases "get_from_cache theme f w")
  have s3: "sends_after T w w3" using get_from_cache_ok [OF assms, of T theme f] g by simp
  show ?thesis
  proof (cases c)
    case (Some q)
    with g s3 show ?thesis by (simp add: fallback_chain_def)
  next
    case None
    have "sends_after T w (snd (local_quote theme w3))"
      using s3 local_quote_ok [OF sends_after_world_ok [OF s3]] sends_after_trans by blast
    with None g s3 show ?thesis by (auto simp: fallback_chain_def split: prod.splits)
  qed
qed

lemma fallback_chain_last [simp]:
  "last_request_time (fst (snd (fallback_chain theme f w))) = last_request_time f"
  by (simp add: fallback_chain_def split: prod.splits option.splits)

text \<open>
  One call that reaches the remote phase: it stamps \<open>last_request_time\<close> with a clock
  reading that is at least \<open>MIN_REQUEST_DELAY\<close> after the previous stamp and not before the
  call began, and it sends every remote request at that stamp or later.
\<close>

lemma remote_phase_stamp:
  assumes "world_ok w" "remote_phase theme f w = (r, f', w')"
  shows "last_request_time f + MIN_REQUEST_DELAY \<le> last_request_time f'"
    "clock w \<le> last_request_time f'"
    "\<exists>new. sent_at w' = sent_at w @ new \<and> list_all (\<lambda>t. last_request_time f' \<le> t) new"
    "world_ok w'"
proof -
  obtain f1 w1 where wl: "wait_for_rate_limit f w = (f1, w1)"
    by (cases "wait_for_rate_limit f w")
  note wf = wait_for_rate_limit_ok [OF assms(1) wl]
  have ok1: "world_ok w1" using wf(3) [of 0] by (rule sends_after_world_ok)
  have c1: "clock w \<le> clock w1" using wf(3) [of 0] by (simp add: sends_after_def)
  obtain ar f2 w2 where al: "attempt_loop [0 ..< 3] theme f1 w1 = (ar, f2, w2)"
    by (cases "attempt_loop [0 ..< 3] theme f1 w1") auto
  from attempt_loop_ok [OF ok1, of "clock w1" "[0 ..< 3]" theme f1] al
  have s2: "sends_after (clock w1) w1 w2" and l2: "last_request_time f2 = clock w1"
    using wf(1) by simp_all
  have fin: "sends_after (clock w1) w1 w' \<and> last_request_time f' = clock w1"
  proof (cases ar)
    case (Inl e)
    with assms(2) wl al s2 l2 show ?thesis by (simp add: remote_phase_def)
  next
    case (Inr qo)
    show ?thesis
    proof (cases qo)
      case (Some q)
      with Inr assms(2) wl al s2 l2 show ?thesis by (simp add: remote_phase_def)
    next
      case None
      with Inr assms(2) wl al have fc: "fallback_chain theme f2 w2 = (r, f', w')"
        by (simp add: remote_phase_def)
      have "sends_after (clock w1) w2 w'"
        using fallback_chain_ok [OF sends_after_world_ok [OF s2], of "clock w1" theme f2] fc
        by simp
      moreover have "last_request_time f' = last_request_time f2"
        using fallback_chain_last [of theme f2 w2] fc by simp
      ultimately show ?thesis using s2 l2 sends_after_trans by auto
    qed
  qed
  then have l: "last_request_time f' = clock w1" and s: "sends_after (clock w1) w1 w'"
    by simp_all
  show "last_request_time f + MIN_REQUEST_DELAY \<le> last_request_time f'"
    using wf(2) l by simp
  show "clock w \<le> last_request_time f'" using c1 l by simp
  show "\<exists>new. sent_at w' = sent_at w @ new \<and> list_all (\<lambda>t. last_request_time f' \<le> t) new"
    using s wf(4) l by (simp add: sends_after_def)
  show "world_ok w'" using s by (rule sends_after_world_ok)
qed

lemma cache_first_world:
  assumes "world_ok w" "cache_first theme f w = (c, w0)"
  shows "world_ok w0" "clock w0 = clock w" "sent_at w0 = sent_at w"
proof -
  have "sends_after 0 w w0 \<and> clock w0 = clock w \<and> sent_at w0 = sent_at w"
  proof (cases "clock w - (case cache_timestamp f of None \<Rightarrow> 0 | Some t \<Rightarrow> t) < 300")
    case True
    then have g: "get_from_cache theme f w = (c, w0)"
      using assms(2) by (simp add: cache_first_def)
    have "sends_after 0 w w0" using get_from_cache_ok [OF assms(1), of 0 theme f] g by simp
    moreover have "clock w0 = clock w \<and> sent_at w0 = sent_at w"
      using g
      by (auto simp: get_from_cache_def random_choice_def Let_def
          split: option.splits if_splits list.splits)
    ultimately show ?thesis by simp
  next
    case False
    then have "w0 = w" using assms(2) by (simp add: cache_first_def)
    with assms(1) show ?thesis by (simp add: sends_after_refl)
  qed
  then show "world_ok w0" "clock w0 = clock w" "sent_at w0 = sent_at w"
    by (simp_all add: sends_after_def)
qed

lemma fetch_stamp:
  assumes "world_ok w" "\<not> served_from_cache theme f w"
    "fetch_random_quote theme f w = (r, f', w')"
  shows "last_request_time f + MIN_REQUEST_DELAY \<le> last_request_time f'"
    "clock w \<le> last_request_time f'"
    "\<exists>new. sent_at w' = sent_at w @ new \<and> list_all (\<lambda>t. last_request_time f' \<le> t) new"
    "world_ok w'"
proof -
  obtain w0 where cf: "cache_first theme f w = (None, w0)"
    using assms(2) by (cases "cache_first theme f w") (auto simp: served_from_cache_def)
  note w0 = cache_first_world [OF assms(1) cf]
  from assms(3) cf have rp: "remote_phase theme f w0 = (r, f', w')"
    by (simp add: fetch_random_quote_def)
  note st = remote_phase_stamp [OF w0(1) rp]
  show "last_request_time f + MIN_REQUEST_DELAY \<le> last_request_time f'" by (rule st(1))
  show "clock w \<le> last_request_time f'" using st(2) w0(2) by simp
  show "\<exists>new. sent_at w' = sent_at w @ new \<and> list_all (\<lambda>t. last_request_time f' \<le> t) new"
    using st(3) w0(3) by simp
  show "world_ok w'" by (rule st(4))
qed

text \<open>
  What the rate limit does separate is the stamps. Two fetch calls that both reach the
  remote phase, the second issued when the clock reads \<open>gap\<close> more than at the first call's
  return: each call stamps \<open>last_request_time\<close> once, before the first of its up to three
  requests; the second stamp is at least \<open>MIN_REQUEST_DELAY = 2\<close> after the first, and each
  call sends its requests at its own stamp or later. Nothing is said of the time between
  the first call's later requests and the second call's first.
\<close>

lemma stamps_two_apart:
  assumes "world_ok w0"
    and "\<not> served_from_cache theme1 f0 w0"
    and "fetch_random_quote theme1 f0 w0 = (r1, f1, w1)"
    and "\<not> served_from_cache theme2 f1 (w1\<lparr>clock := clock w1 + gap\<rparr>)"
    and "fetch_random_quote theme2 f1 (w1\<lparr>clock := clock w1 + gap\<rparr>) = (r2, f2, w2)"
  shows "last_request_time f1 + MIN_REQUEST_DELAY \<le> last_request_time f2
     \<and> clock w0 \<le> last_request_time f1
     \<and> (\<exists>new1. sent_at w1 = sent_at w0 @ new1
           \<and> list_all (\<lambda>t. last_request_time f1 \<le> t) new1)
     \<and> (\<exists>new2. sent_at w2 = sent_at w1 @ new2
           \<and> list_all (\<lambda>t. last_request_time f2 \<le> t) new2
           \<and> list_all (\<lambda>t. last_request_time f1 + MIN_REQUEST_DELAY \<le> t) new2)"
proof -
  note a = fetch_stamp [OF assms(1) assms(2) assms(3)]
  have ok: "world_ok (w1\<lparr>clock := clock w1 + gap\<rparr>)"
    using a(4) by (simp add: world_ok_def)
  note b = fetch_stamp [OF ok assms(4) assms(5)]
  from b(3) obtain new2 where n2: "sent_at w2 = sent_at w1 @ new2"
    "list_all (\<lambda>t. last_request_time f2 \<le> t) new2" by auto
  have "list_all (\<lambda>t. last_request_time f1 + MIN_REQUEST_DELAY \<le> t) new2"
    using n2(2) b(1) by (auto simp: list_all_iff)
  with n2 a b(1) show ?thesis by blast
qed

lemma first_call_run:
  "world_ok failing_world \<and> \<not> served_from_cache ''courage'' new_fetcher failing_world
   \<and> fst first_call = Inr get_fallback_quote
   \<and> last_request_time (fst (snd first_call)) = 1000
   \<and> sent_at (snd (snd first_call)) = [1000, 10011 / 10, 5011 / 5]
   \<and> clock (snd (snd first_call)) = 10023 / 10"
  by code_simp

lemma second_call_run:
  "\<not> served_from_cache ''courage'' (fst (snd first_call)) (snd (snd first_call))
   \<and> last_request_time (fst (snd second_call)) = 10023 / 10
   \<and> sent_at (snd (snd second_call))
       = [1000, 10011 / 10, 5011 / 5, 10023 / 10, 5017 / 5, 2009 / 2]"
  by code_simp

text \<open>
  C1 fails on the code. \<open>MIN_REQUEST_DELAY\<close> is commented as two seconds between requests,
  but \<open>_wait_for_rate_limit\<close> runs once per call, before the loop of up to three requests,
  and compares the clock with the stamp it took then, not with the time of the last
  request. The run: two back-to-back calls for \<open>courage\<close> on a new fetcher, the clock at
  1000, every request failing after a tenth of a time unit. Both calls reach the remote
  phase. The first stamps 1000 and sends at 1000, 1001.1 and 1002.2; the second finds 2.3
  passed since the stamp, does not wait, and sends at 1002.3: a tenth of a time unit after
  the last remote request, not two. Inside each call the requests are 1.1 apart.
\<close>

theorem requests_closer_than_delay:
  "\<not> served_from_cache ''courage'' new_fetcher failing_world
   \<and> \<not> served_from_cache ''courage'' (fst (snd first_call)) (snd (snd first_call))
   \<and> last_request_time (fst (snd first_call)) = 1000
   \<and> sent_at (snd (snd first_call)) = [1000, 10011 / 10, 5011 / 5]
   \<and> last_request_time (fst (snd second_call)) = 10023 / 10
   \<and> sent_at (snd (snd second_call))
       = [1000, 10011 / 10, 5011 / 5, 10023 / 10, 5017 / 5, 2009 / 2]
   \<and> sent_at (snd (snd second_call)) ! 3 - sent_at (snd (snd second_call)) ! 2
       < MIN_REQUEST_DELAY
   \<and> sent_at (snd (snd second_call)) ! 1 - sent_at (snd (snd second_call)) ! 0
       < MIN_REQUEST_DELAY"
  using first_call_run second_call_run by (simp add: MIN_REQUEST_DELAY_def)

section \<open>Properties of the renderer\<close>

lemma hex_to_rgb_valid_color:
  assumes "valid_hex_color c"
  shows "\<exists>rgb. hex_to_rgb c = Inr rgb"
proof -
  from assms obtain a b d e f g where c: "c = [CHR ''#'', a, b, d, e, f, g]"
    and h: "hex_digit a \<noteq> None" "hex_digit b \<noteq> None" "hex_digit d \<noteq> None"
      "hex_digit e \<noteq> None" "hex_digit f \<noteq> None" "hex_digit g \<noteq> None"
    by (rule valid_hex_colorE)
  from hex_to_rgb_valid [OF h] show ?thesis unfolding c by blast
qed

lemma unknown_style_padding:
  "style \<notin> {''minimal'', ''moderne'', ''elegant'', elegant_accented} \<Longrightarrow> padding_of style = 100"
  by (simp add: padding_of_def PADDING_BY_STYLE_def)

text \<open>
  C10. For every style other than \<open>minimal\<close>, \<open>moderne\<close>, \<open>elegant\<close> and the accented
  spelling of \<open>elegant\<close>, on a colour scheme of valid hex colours (at least background and
  text) and a canvas of non-negative size, \<open>create_image\<close> raises nothing and returns the
  canvas filled with the scheme's background colour, with no drawing call made on it: no
  quote line, no author line, no decoration. The padding looked up for such a style is the
  default 100.
\<close>

theorem create_image_unknown_style:
  assumes "style \<notin> {''minimal'', ''moderne'', ''elegant'', elegant_accented}"
    and "2 \<le> length colors" and "list_all valid_hex_color colors"
    and "0 \<le> fst self_size" and "0 \<le> snd self_size"
  shows "\<exists>bg. hex_to_rgb (hd colors) = Inr bg
     \<and> create_image get_font self_size quote_text author_name colors style font_family
         = Inr \<lparr>img_size = self_size, img_fill = bg, img_ops = []\<rparr>
     \<and> padding_of style = 100"
proof -
  from assms(2) obtain c0 c1 cs where colors: "colors = c0 # c1 # cs"
    by (cases colors; cases "tl colors") auto
  with assms(3) have v0: "valid_hex_color c0" and v1: "valid_hex_color c1"
    and vs: "list_all valid_hex_color cs" by simp_all
  obtain bg where bg: "hex_to_rgb c0 = Inr bg" using hex_to_rgb_valid_color [OF v0] by blast
  obtain tc where tc: "hex_to_rgb c1 = Inr tc" using hex_to_rgb_valid_color [OF v1] by blast
  have ac: "\<exists>a. hex_to_rgb (if 2 < length colors then colors ! 2 else colors ! 1) = Inr a"
  proof (cases cs)
    case Nil
    with colors tc show ?thesis by (intro exI [of _ tc]) simp
  next
    case (Cons c2 rest)
    with vs have "valid_hex_color c2" by simp
    from hex_to_rgb_valid_color [OF this] obtain a2 where "hex_to_rgb c2 = Inr a2" by blast
    with Cons colors show ?thesis by (intro exI [of _ a2]) simp
  qed
  then obtain a where a: "hex_to_rgb (if 2 < length colors then colors ! 2 else colors ! 1) = Inr a"
    by blast
  have new: "image_new self_size bg = Inr \<lparr>img_size = self_size, img_fill = bg, img_ops = []\<rparr>"
    using assms(4,5) by (simp add: image_new_def)
  have st: "style \<noteq> ''minimal''" "style \<noteq> ''moderne''" "style \<noteq> ''elegant''"
    "style \<noteq> elegant_accented"
    using assms(1) by simp_all
  have "create_image get_font self_size quote_text author_name colors style font_family
      = Inr \<lparr>img_size = self_size, img_fill = bg, img_ops = []\<rparr>"
  proof (cases cs)
    case Nil
    with colors bg tc a new st show ?thesis
      by (simp add: create_image_def Let_def)
  next
    case (Cons c2 rest)
    with colors bg tc a new st show ?thesis
      by (simp add: create_image_def Let_def)
  qed
  moreover have "hex_to_rgb (hd colors) = Inr bg" using bg colors by simp
  moreover note unknown_style_padding [OF assms(1)]
  ultimately show ?thesis by blast
qed

theorem create_image_unknown_style_witness:
  "''retro'' \<notin> {''minimal'', ''moderne'', ''elegant'', elegant_accented}
   \<and> 2 \<le> length dark_scheme \<and> list_all valid_hex_color dark_scheme
   \<and> hex_to_rgb (hd dark_scheme) = Inr (14, 17, 23)
   \<and> create_image mono_font (1080, 1080) ''You can do it'' ''X'' dark_scheme ''retro''
        ''DejaVu Sans''
       = Inr \<lparr>img_size = (1080, 1080), img_fill = (14, 17, 23), img_ops = []\<rparr>
   \<and> padding_of ''retro'' = 100"
proof -
  have s: "''retro'' \<notin> {''minimal'', ''moderne'', ''elegant'', elegant_accented}"
    by (simp add: elegant_accented_def)
  have l: "2 \<le> length dark_scheme" by (simp add: dark_scheme_def)
  have v: "list_all valid_hex_color dark_scheme" by code_simp
  have b: "hex_to_rgb (hd dark_scheme) = Inr (14, 17, 23)" by code_simp
  have z: "(0::int) \<le> fst (1080, 1080)" "(0::int) \<le> snd (1080, 1080)" by simp_all
  from create_image_unknown_style [OF s l v z, of mono_font "''You can do it''" "''X''"
      "''DejaVu Sans''"] b
  have "create_image mono_font (1080, 1080) ''You can do it'' ''X'' dark_scheme ''retro''
        ''DejaVu Sans''
       = Inr \<lparr>img_size = (1080, 1080), img_fill = (14, 17, 23), img_ops = []\<rparr>
     \<and> padding_of ''retro'' = 100"
    by auto
  with s l v b show ?thesis by blast
qed

section \<open>Properties of the retry loop\<close>

text \<open>
  What holds of the recent-set whatever the enumeration: a full set that takes a new digest
  loses the first element of its enumeration; it stays within 30 as long as an
  enumeration lists each element once; and when the loop returns nothing, the call ends
  with the set cleared and the next fetch accepted as it comes.
\<close>

lemma remember_evicts_first_enumerated:
  "length quote_cache = 30 \<Longrightarrow>
   remember set_order h quote_cache = tl (set_order (quote_cache @ [h]))"
  by (simp add: remember_def)

lemma remember_bound:
  assumes "length quote_cache \<le> 30"
    and "length (set_order (quote_cache @ [h])) = length (quote_cache @ [h])"
  shows "length (remember set_order h quote_cache) \<le> 30"
  using assms by (simp add: remember_def Let_def)

lemma exhausted_clears:
  assumes "fst (unique_loop md5_hex set_order [0 ..< nat max_attempts] theme quote_cache f w) = None"
  shows "fst (snd (fetch_unique_quote md5_hex set_order theme max_attempts quote_cache f w)) = []"
  using assms
  by (auto simp: fetch_unique_quote_def split: prod.splits option.splits sum.splits)

lemma enumeration_of_run:
  "map length (sample_set_order (thirty_hashes @ [sample_md5 ''You can do it and achieve success'']))
     = [28, 19, 10, 1, 29, 20, 11, 2, 30, 21, 12, 3, 22, 13, 4, 23, 14, 5, 33, 24, 15, 6, 25,
        16, 7, 26, 17, 8, 27, 18, 9]"
  by code_simp

text \<open>
  C4 fails on the code where it says the eviction is first-in first-out. The run: the
  recent-set holds thirty digests, the fetch returns a quote whose digest is new, and the
  set enumerates by hash-table slot. The 31 digests are enumerated with the 28th inserted
  first, so that one is evicted; the oldest digest stays in the set.
\<close>

theorem recent_set_not_fifo:
  "fst unique_run
     = Some (zen_quote sample_hash (Some ''You can do it and achieve success'') (Some ''X'') None)
   \<and> length thirty_hashes = 30
   \<and> hd thirty_hashes = ''a''
   \<and> length (fst (snd unique_run)) = 30
   \<and> hd thirty_hashes \<in> set (fst (snd unique_run))
   \<and> thirty_hashes ! 27 \<notin> set (fst (snd unique_run))"
  by code_simp

end
